theory Spec2Isabelle
  imports Complex_Main
begin

section \<open>JavaScript strings\<close>

text \<open>
  A JavaScript string is modelled as a \<^typ>\<open>string\<close>; a \<^typ>\<open>char\<close> stands for one
  code unit below 256. The character classes are those of ECMAScript on that range:
  \<^verbatim>\<open>\s\<close> is TAB, LF, VT, FF, CR, SPACE and NBSP; a line terminator (what \<^verbatim>\<open>.\<close>
  does not match) is LF or CR; \<^verbatim>\<open>\w\<close> is \<^verbatim>\<open>[A-Za-z0-9_]\<close>.
\<close>

abbreviation NL :: char where "NL \<equiv> CHR 0x0A"
abbreviation CR :: char where "CR \<equiv> CHR 0x0D"
abbreviation DQUOTE :: char where "DQUOTE \<equiv> CHR 0x22"

definition isSpace :: "char \<Rightarrow> bool" where
  "isSpace ch = (ch = CHR 0x09 \<or> ch = NL \<or> ch = CHR 0x0B \<or> ch = CHR 0x0C \<or> ch = CR
     \<or> ch = CHR 0x20 \<or> ch = CHR 0xA0)"

definition isLineTerminator :: "char \<Rightarrow> bool" where
  "isLineTerminator ch = (ch = NL \<or> ch = CR)"

definition isDigit :: "char \<Rightarrow> bool" where
  "isDigit ch = (let n = (of_char ch :: nat) in 48 \<le> n \<and> n \<le> 57)"

definition isWordChar :: "char \<Rightarrow> bool" where
  "isWordChar ch = (let n = (of_char ch :: nat) in
     (48 \<le> n \<and> n \<le> 57) \<or> (65 \<le> n \<and> n \<le> 90) \<or> (97 \<le> n \<and> n \<le> 122) \<or> n = 95)"

definition trim :: "string \<Rightarrow> string" where
  \<comment> \<open>\<^verbatim>\<open>String.prototype.trim\<close>\<close>
  "trim s = rev (dropWhile isSpace (rev (dropWhile isSpace s)))"

definition startsWith :: "string \<Rightarrow> string \<Rightarrow> bool" where
  \<comment> \<open>\<^verbatim>\<open>s.startsWith(w)\<close>\<close>
  "startsWith s w = (take (length w) s = w)"

fun js_split :: "char \<Rightarrow> string \<Rightarrow> string list" where
  \<comment> \<open>\<^verbatim>\<open>s.split(sep)\<close> for a one-character separator: the empty string gives one empty piece\<close>
  "js_split sep [] = [[]]"
| "js_split sep (x # xs) =
     (if x = sep then [] # js_split sep xs
      else (case js_split sep xs of [] \<Rightarrow> [[x]] | y # ys \<Rightarrow> (x # y) # ys))"

fun join :: "string \<Rightarrow> string list \<Rightarrow> string" where
  \<comment> \<open>\<^verbatim>\<open>xs.join(sep)\<close>\<close>
  "join sep [] = []"
| "join sep [x] = x"
| "join sep (x # y # ys) = x @ sep @ join sep (y # ys)"

fun indexOf :: "string \<Rightarrow> string \<Rightarrow> int" where
  \<comment> \<open>\<^verbatim>\<open>s.indexOf(w)\<close>: the first position of \<open>w\<close> in \<open>s\<close>, or -1\<close>
  "indexOf [] w = (if w = [] then 0 else -1)"
| "indexOf (x # xs) w =
     (if startsWith (x # xs) w then 0
      else (let r = indexOf xs w in if r < 0 then -1 else r + 1))"

section \<open>Regular expressions\<close>

text \<open>
  A backtracking matcher for the fragment of ECMAScript regular expressions that the
  sources use. \<open>ms r (c, s)\<close> lists, in the order in which a backtracking engine tries
  them, the ways of matching \<open>r\<close> at the front of \<open>s\<close>: each is the captures bound so far
  (most recent first) and the text left over. A greedy star tries one more iteration
  first, a lazy star tries to stop first; as in ECMAScript, an iteration of a star that
  consumes nothing is abandoned. \<open>Eol\<close> is \<^verbatim>\<open>$\<close> without the multiline flag; \<open>Ref k\<close> is the
  back-reference \<^verbatim>\<open>\k\<close>, which matches the empty string while group \<open>k\<close> is unset.
\<close>

type_synonym caps = "(nat \<times> string) list"

datatype rx =
    Chr "char \<Rightarrow> bool"
  | Eps
  | Eol
  | Seq rx rx
  | Alt rx rx
  | Star rx
  | LazyStar rx
  | Grp nat rx
  | Ref nat

fun ms :: "rx \<Rightarrow> caps \<times> string \<Rightarrow> (caps \<times> string) list" where
  "ms (Chr P) (c, s) = (case s of [] \<Rightarrow> [] | x # xs \<Rightarrow> if P x then [(c, xs)] else [])"
| "ms Eps (c, s) = [(c, s)]"
| "ms Eol (c, s) = (if s = [] then [(c, s)] else [])"
| "ms (Seq a b) (c, s) = concat (map (\<lambda>(c', s'). ms b (c', s')) (ms a (c, s)))"
| "ms (Alt a b) (c, s) = ms a (c, s) @ ms b (c, s)"
| "ms (Star a) (c, s) =
     concat (map (\<lambda>(c', s'). if length s' < length s then ms (Star a) (c', s') else [])
       (ms a (c, s)))
     @ [(c, s)]"
| "ms (LazyStar a) (c, s) =
     (c, s) # concat (map
       (\<lambda>(c', s'). if length s' < length s then ms (LazyStar a) (c', s') else [])
       (ms a (c, s)))"
| "ms (Grp k a) (c, s) =
     map (\<lambda>(c', s'). ((k, take (length s - length s') s) # c', s')) (ms a (c, s))"
| "ms (Ref k) (c, s) =
     (case map_of c k of None \<Rightarrow> [(c, s)]
      | Some w \<Rightarrow> if take (length w) s = w then [(c, drop (length w) s)] else [])"

definition chr :: "char \<Rightarrow> rx" where
  "chr ch = Chr (\<lambda>x. x = ch)"

definition notChr :: "char \<Rightarrow> rx" where
  \<comment> \<open>a negated class of one character, \<^verbatim>\<open>[^c]\<close>: it matches line terminators too\<close>
  "notChr ch = Chr (\<lambda>x. x \<noteq> ch)"

definition dot :: rx where
  "dot = Chr (\<lambda>x. \<not> isLineTerminator x)"

definition seqs :: "rx list \<Rightarrow> rx" where
  "seqs rs = foldr Seq rs Eps"

definition lit :: "string \<Rightarrow> rx" where
  "lit w = seqs (map chr w)"

definition plus :: "rx \<Rightarrow> rx" where
  \<comment> \<open>\<^verbatim>\<open>r+\<close>\<close>
  "plus r = Seq r (Star r)"

definition opt :: "rx \<Rightarrow> rx" where
  \<comment> \<open>\<^verbatim>\<open>r?\<close>\<close>
  "opt r = Alt r Eps"

fun upTo :: "nat \<Rightarrow> rx \<Rightarrow> rx" where
  \<comment> \<open>\<^verbatim>\<open>r{0,n}\<close>\<close>
  "upTo 0 r = Eps"
| "upTo (Suc n) r = Alt (Seq r (upTo n r)) Eps"

fun atLeast :: "nat \<Rightarrow> rx \<Rightarrow> rx" where
  \<comment> \<open>\<^verbatim>\<open>r{n,}\<close>\<close>
  "atLeast 0 r = Star r"
| "atLeast (Suc n) r = Seq r (atLeast n r)"

definition grp :: "nat \<Rightarrow> caps \<Rightarrow> string" where
  \<comment> \<open>\<^verbatim>\<open>match[k]\<close>, read where an unset group counts as the empty string
     (\<^verbatim>\<open>match[3] || ""\<close>) or where the group takes part in every match\<close>
  "grp k m = (case map_of m k of None \<Rightarrow> [] | Some w \<Rightarrow> w)"

definition matchStart :: "rx \<Rightarrow> string \<Rightarrow> (caps \<times> string) option" where
  \<comment> \<open>the first match of \<open>r\<close> at the start of \<open>s\<close>: its captures, group 0 being the text
     matched, and the rest of \<open>s\<close>. This is \<^verbatim>\<open>s.match(/^r/)\<close>.\<close>
  "matchStart r s =
     (case ms r ([], s) of [] \<Rightarrow> None
      | (c, s') # _ \<Rightarrow> Some ((0, take (length s - length s') s) # c, s'))"

fun search :: "rx \<Rightarrow> string \<Rightarrow> (caps \<times> string) option" where
  \<comment> \<open>\<^verbatim>\<open>s.match(/r/)\<close>: the first match at the leftmost position that has one, and the
     text after it\<close>
  "search r [] = matchStart r []"
| "search r (x # xs) =
     (case matchStart r (x # xs) of Some m \<Rightarrow> Some m | None \<Rightarrow> search r xs)"

definition test :: "rx \<Rightarrow> string \<Rightarrow> bool" where
  \<comment> \<open>\<^verbatim>\<open>/r/.test(s)\<close> for a regular expression without the global flag\<close>
  "test r s = (search r s \<noteq> None)"

definition testStart :: "rx \<Rightarrow> string \<Rightarrow> bool" where
  \<comment> \<open>\<^verbatim>\<open>/^r/.test(s)\<close>\<close>
  "testStart r s = (matchStart r s \<noteq> None)"

definition testGlobal :: "rx \<Rightarrow> string \<Rightarrow> nat \<Rightarrow> bool \<times> nat" where
  \<comment> \<open>\<^verbatim>\<open>/r/g.test(s)\<close>: a regular expression with the global flag starts at its
     \<^verbatim>\<open>lastIndex\<close> and leaves there the end of the match, or 0 when there is none.
     The result is the answer and the new \<^verbatim>\<open>lastIndex\<close>.\<close>
  "testGlobal r s lastIndex =
     (if lastIndex > length s then (False, 0)
      else (case search r (drop lastIndex s) of
              None \<Rightarrow> (False, 0)
            | Some (m, rest) \<Rightarrow> (True, length s - length rest)))"

definition replaceStart :: "rx \<Rightarrow> string \<Rightarrow> string \<Rightarrow> string" where
  \<comment> \<open>\<^verbatim>\<open>s.replace(/^r/, w)\<close> for a replacement \<open>w\<close> without \<^verbatim>\<open>$\<close> patterns\<close>
  "replaceStart r w s = (case matchStart r s of None \<Rightarrow> s | Some (m, s') \<Rightarrow> w @ s')"

fun scan :: "rx \<Rightarrow> string \<Rightarrow> (char + caps) list" where
  \<comment> \<open>the left-to-right pass of \<^verbatim>\<open>s.replace(/r/g, f)\<close> and \<^verbatim>\<open>s.matchAll(/r/g)\<close>: the
     matches (\<open>Inr\<close>, with their captures) and the characters between them (\<open>Inl\<close>).
     After an empty match the pass moves on by one character.\<close>
  "scan r [] = (case matchStart r [] of None \<Rightarrow> [] | Some (m, s') \<Rightarrow> [Inr m])"
| "scan r (x # xs) =
     (case matchStart r (x # xs) of
        None \<Rightarrow> Inl x # scan r xs
      | Some (m, s') \<Rightarrow>
          if length s' < length (x # xs) then Inr m # scan r s'
          else Inr m # Inl x # scan r xs)"

definition replaceAll :: "rx \<Rightarrow> (caps \<Rightarrow> string) \<Rightarrow> string \<Rightarrow> string" where
  \<comment> \<open>\<^verbatim>\<open>s.replace(/r/g, f)\<close>\<close>
  "replaceAll r f s = concat (map (\<lambda>t. case t of Inl ch \<Rightarrow> [ch] | Inr m \<Rightarrow> f m) (scan r s))"

definition matchAll :: "rx \<Rightarrow> string \<Rightarrow> caps list" where
  \<comment> \<open>\<^verbatim>\<open>[...s.matchAll(/r/g)]\<close>\<close>
  "matchAll r s = concat (map (\<lambda>t. case t of Inl ch \<Rightarrow> [] | Inr m \<Rightarrow> [m]) (scan r s))"

section \<open>The document that is built\<close>

text \<open>
  The calls made on the Google Docs body, in the order in which they are made. Each
  constructor stands for the calls of one \<^verbatim>\<open>insert...\<close> function of the sources.
\<close>

datatype glyph = NUMBER | BULLET

datatype halign = LEFT | CENTER | RIGHT

datatype cell = Cell string bool halign
  \<comment> \<open>a table cell: its text, whether the attribute \<^verbatim>\<open>HEADING\<close> is set, and its
     \<^verbatim>\<open>HORIZONTAL_ALIGNMENT\<close>\<close>

datatype jsval = JStr string | JInherited string
  \<comment> \<open>a value read from the footnote table: a stored string, or the property of that
     name which every object inherits from \<^verbatim>\<open>Object.prototype\<close>\<close>

datatype docop =
    CursorInsertText string
      \<comment> \<open>\<^verbatim>\<open>cursor.insertText(markdownText)\<close>\<close>
  | AppendParagraph string
      \<comment> \<open>\<^verbatim>\<open>body.appendParagraph(text)\<close>\<close>
  | CodeBlock string
      \<comment> \<open>\<^verbatim>\<open>insertCodeBlock\<close>: a paragraph in Courier New on a grey background\<close>
  | HorizontalRule
      \<comment> \<open>\<^verbatim>\<open>body.appendHorizontalRule()\<close>\<close>
  | AppendImage string
      \<comment> \<open>\<^verbatim>\<open>insertImage\<close>: the URL is fetched and the image appended, or the failure logged\<close>
  | Blockquote string
      \<comment> \<open>\<^verbatim>\<open>insertBlockquote\<close>: an indented paragraph on a grey background\<close>
  | Heading string nat
      \<comment> \<open>\<^verbatim>\<open>insertHeading\<close>: a paragraph with heading \<^verbatim>\<open>"HEADING" + level\<close>\<close>
  | ListItem string glyph int
      \<comment> \<open>\<^verbatim>\<open>body.appendListItem(text).setGlyphType(g).setNestingLevel(n)\<close>\<close>
  | AppendTable "cell list list"
      \<comment> \<open>\<^verbatim>\<open>body.appendTable()\<close> and the rows and cells appended to it\<close>
  | AppendFootnote jsval
      \<comment> \<open>\<^verbatim>\<open>body.appendFootnote(value)\<close>\<close>
  | IndentedParagraph string rat
      \<comment> \<open>\<^verbatim>\<open>insertWithCustomIndentation\<close>: a paragraph and its \<^verbatim>\<open>setIndentStart\<close>\<close>
  | LinkParagraph string "string option"
      \<comment> \<open>\<^verbatim>\<open>insertLink(body, text, url)\<close> of Utils.js: a paragraph and its
         \<^verbatim>\<open>setLinkUrl(url)\<close>; \<open>None\<close> is \<^verbatim>\<open>undefined\<close>\<close>

section \<open>The lookup tables\<close>

text \<open>
  \<^verbatim>\<open>footnotes\<close> and \<^verbatim>\<open>referenceLinks\<close> are the module-level variables of
  MarkdownParser.js (lines 327 and 368), both initialised to \<^verbatim>\<open>{}\<close>. The functions that
  write and read them are top-level functions, so they use these variables and not the
  variables of the same names that \<^verbatim>\<open>parseAndInsertMarkdown\<close> declares locally
  (lines 97 and 98), which nothing reads.

  An object literal inherits the properties of \<^verbatim>\<open>Object.prototype\<close>: \<^verbatim>\<open>obj[k]\<close> finds them
  when \<open>obj\<close> has no own property \<open>k\<close>. An assignment to \<^verbatim>\<open>obj["__proto__"]\<close> creates no
  own property: it replaces the prototype when the value is an object and does nothing
  when it is a string.
\<close>

definition objectPrototypeKeys :: "string list" where
  "objectPrototypeKeys =
     [''constructor'', ''__defineGetter__'', ''__defineSetter__'', ''hasOwnProperty'',
      ''__lookupGetter__'', ''__lookupSetter__'', ''isPrototypeOf'', ''propertyIsEnumerable'',
      ''toString'', ''valueOf'', ''__proto__'', ''toLocaleString'']"

record linkDef =
  url :: string
  title :: string

record refTable =
  refOwn :: "string \<rightharpoonup> linkDef"
  refProto :: "linkDef option"
    \<comment> \<open>\<open>Some d\<close> once a definition named \<^verbatim>\<open>__proto__\<close> has made \<open>d\<close> the prototype\<close>

record globals =
  footnotes :: "string \<rightharpoonup> string"
  referenceLinks :: refTable

definition emptyGlobals :: globals where
  \<comment> \<open>the tables when the script is loaded\<close>
  "emptyGlobals = \<lparr>footnotes = Map.empty,
     referenceLinks = \<lparr>refOwn = Map.empty, refProto = None\<rparr>\<rparr>"

definition footnotesSet :: "string \<Rightarrow> string \<Rightarrow> (string \<rightharpoonup> string) \<Rightarrow> (string \<rightharpoonup> string)" where
  \<comment> \<open>\<^verbatim>\<open>footnotes[k] = v\<close>\<close>
  "footnotesSet k v fs = (if k = ''__proto__'' then fs else fs(k \<mapsto> v))"

definition footnotesGet :: "(string \<rightharpoonup> string) \<Rightarrow> string \<Rightarrow> jsval option" where
  \<comment> \<open>\<^verbatim>\<open>footnotes[k]\<close>; \<open>None\<close> is \<^verbatim>\<open>undefined\<close>\<close>
  "footnotesGet fs k =
     (case fs k of Some v \<Rightarrow> Some (JStr v)
      | None \<Rightarrow> if k \<in> set objectPrototypeKeys then Some (JInherited k) else None)"

fun truthy :: "jsval option \<Rightarrow> bool" where
  "truthy None = False"
| "truthy (Some (JStr v)) = (v \<noteq> [])"
| "truthy (Some (JInherited k)) = True"

datatype refVal = RDef linkDef | RStr string | RObject | RUndefined
  \<comment> \<open>what \<^verbatim>\<open>referenceLinks[k]\<close> can be: a stored definition, a string (a field of a
     definition that has become the prototype), an inherited function or object, or
     \<^verbatim>\<open>undefined\<close>\<close>

definition refSet :: "string \<Rightarrow> linkDef \<Rightarrow> refTable \<Rightarrow> refTable" where
  \<comment> \<open>\<^verbatim>\<open>referenceLinks[k] = d\<close>\<close>
  "refSet k d t =
     (if k = ''__proto__'' then t\<lparr>refProto := Some d\<rparr> else t\<lparr>refOwn := (refOwn t)(k \<mapsto> d)\<rparr>)"

definition refGet :: "refTable \<Rightarrow> string \<Rightarrow> refVal" where
  \<comment> \<open>\<^verbatim>\<open>referenceLinks[k]\<close>\<close>
  "refGet t k =
     (if k = ''__proto__'' then (case refProto t of Some d \<Rightarrow> RDef d | None \<Rightarrow> RObject)
      else case refOwn t k of Some d \<Rightarrow> RDef d
      | None \<Rightarrow>
         (case refProto t of
            Some d \<Rightarrow>
              if k = ''url'' then RStr (url d)
              else if k = ''title'' then RStr (title d)
              else if k \<in> set objectPrototypeKeys then RObject else RUndefined
          | None \<Rightarrow> if k \<in> set objectPrototypeKeys then RObject else RUndefined))"

fun refTruthy :: "refVal \<Rightarrow> bool" where
  "refTruthy (RDef d) = True"
| "refTruthy (RStr w) = (w \<noteq> [])"
| "refTruthy RObject = True"
| "refTruthy RUndefined = False"

fun refUrl :: "refVal \<Rightarrow> string" where
  \<comment> \<open>\<^verbatim>\<open>${v.url}\<close> inside a template literal, for a truthy \<open>v\<close>\<close>
  "refUrl (RDef d) = url d"
| "refUrl v = ''undefined''"

section \<open>MarkdownParser.js\<close>

subsection \<open>Its regular expressions\<close>

definition rxImage :: rx where
  \<comment> \<open>\<^verbatim>\<open>/!\[.*\]\(.*\)/\<close>\<close>
  "rxImage = seqs [lit ''!['', Star dot, lit '']('', Star dot, lit '')'']"

definition rxImageUrl :: rx where
  \<comment> \<open>\<^verbatim>\<open>/!\[.*\]\((.*)\)/\<close>\<close>
  "rxImageUrl = seqs [lit ''!['', Star dot, lit '']('', Grp 1 (Star dot), lit '')'']"

definition rxBlockquote :: rx where
  \<comment> \<open>\<^verbatim>\<open>/^\s*>/\<close>\<close>
  "rxBlockquote = seqs [Star (Chr isSpace), chr CHR ''>'']"

definition rxQuoteMarker :: rx where
  \<comment> \<open>\<^verbatim>\<open>/^>\s?/\<close>\<close>
  "rxQuoteMarker = seqs [chr CHR ''>'', opt (Chr isSpace)]"

definition rxHeading :: rx where
  \<comment> \<open>\<^verbatim>\<open>/^#{1,6}\s/\<close>\<close>
  "rxHeading = seqs [chr CHR ''#'', upTo 5 (chr CHR ''#''), Chr isSpace]"

definition rxHashes :: rx where
  \<comment> \<open>\<^verbatim>\<open>/^#+/\<close>\<close>
  "rxHashes = plus (chr CHR ''#'')"

definition rxHeadingMarker :: rx where
  \<comment> \<open>\<^verbatim>\<open>/^#+\s/\<close>\<close>
  "rxHeadingMarker = seqs [plus (chr CHR ''#''), Chr isSpace]"

definition rxMarker :: rx where
  \<comment> \<open>\<^verbatim>\<open>(\-|\*|\+|\d+\.)\<close>\<close>
  "rxMarker = Grp 1 (Alt (chr CHR ''-'') (Alt (chr CHR ''*'') (Alt (chr CHR ''+'')
     (seqs [plus (Chr isDigit), chr CHR ''.'']))))"

definition rxList :: rx where
  \<comment> \<open>\<^verbatim>\<open>/^\s*(\-|\*|\+|\d+\.)\s/\<close>\<close>
  "rxList = seqs [Star (Chr isSpace), rxMarker, Chr isSpace]"

definition rxLeadingSpace :: rx where
  \<comment> \<open>\<^verbatim>\<open>/^\s*/\<close>\<close>
  "rxLeadingSpace = Star (Chr isSpace)"

definition rxOrdered :: rx where
  \<comment> \<open>\<^verbatim>\<open>/^\s*\d+\./\<close>\<close>
  "rxOrdered = seqs [Star (Chr isSpace), plus (Chr isDigit), chr CHR ''.'']"

definition rxListMarker :: rx where
  \<comment> \<open>\<^verbatim>\<open>/^(\-|\*|\+|\d+\.)\s/\<close>\<close>
  "rxListMarker = seqs [rxMarker, Chr isSpace]"

definition rxPipe :: rx where
  \<comment> \<open>\<^verbatim>\<open>/\|/\<close>\<close>
  "rxPipe = chr CHR ''|''"

definition rxSeparatorChars :: rx where
  \<comment> \<open>\<^verbatim>\<open>/^[\|\s:\-]+$/\<close>\<close>
  "rxSeparatorChars =
     seqs [plus (Chr (\<lambda>x. x = CHR ''|'' \<or> isSpace x \<or> x = CHR '':'' \<or> x = CHR ''-'')), Eol]"

definition rxCenter :: rx where
  \<comment> \<open>\<^verbatim>\<open>/:-+:/\<close>\<close>
  "rxCenter = seqs [chr CHR '':'', plus (chr CHR ''-''), chr CHR '':'']"

definition rxRight :: rx where
  \<comment> \<open>\<^verbatim>\<open>/-+:/\<close>\<close>
  "rxRight = seqs [plus (chr CHR ''-''), chr CHR '':'']"

definition rxFootnoteDefinition :: rx where
  \<comment> \<open>\<^verbatim>\<open>/^\[\^(\w+)\]:\s*(.*)$/\<close>\<close>
  "rxFootnoteDefinition =
     seqs [lit ''[^'', Grp 1 (plus (Chr isWordChar)), lit '']:'', Star (Chr isSpace),
           Grp 2 (Star dot), Eol]"

definition rxFootnoteReference :: rx where
  \<comment> \<open>\<^verbatim>\<open>/\[\^(\w+)\]/g\<close>\<close>
  "rxFootnoteReference = seqs [lit ''[^'', Grp 1 (plus (Chr isWordChar)), lit '']'']"

definition rxLinkDefinition :: rx where
  \<comment> \<open>\<^verbatim>\<open>/^\[(\w+)\]:\s*(\S+)(?:\s+"(.+)")?$/\<close>\<close>
  "rxLinkDefinition =
     seqs [lit ''['', Grp 1 (plus (Chr isWordChar)), lit '']:'', Star (Chr isSpace),
           Grp 2 (plus (Chr (\<lambda>x. \<not> isSpace x))),
           opt (seqs [plus (Chr isSpace), chr DQUOTE, Grp 3 (plus dot), chr DQUOTE]),
           Eol]"

definition rxReferenceLink :: rx where
  \<comment> \<open>\<^verbatim>\<open>/\[([^\]]+)\]\[(\w+)\]/g\<close>\<close>
  "rxReferenceLink =
     seqs [lit ''['', Grp 1 (plus (notChr CHR '']'')), lit '']['', Grp 2 (plus (Chr isWordChar)),
           lit '']'']"

definition rxDelimited :: "string \<Rightarrow> rx" where
  \<comment> \<open>\<^verbatim>\<open>/d(.*?)d/g\<close> for a literal delimiter \<open>d\<close>: \<^verbatim>\<open>/\*\*(.*?)\*\*/g\<close>, \<^verbatim>\<open>/__(.*?)__/g\<close>,
     \<^verbatim>\<open>/\*(.*?)\*/g\<close>, \<^verbatim>\<open>/_(.*?)_/g\<close> and \<^verbatim>\<open>/~~(.*?)~~/g\<close>\<close>
  "rxDelimited d = seqs [lit d, Grp 1 (LazyStar dot), lit d]"

definition rxIndent :: rx where
  \<comment> \<open>\<^verbatim>\<open>/^(\s+)/\<close>\<close>
  "rxIndent = Grp 1 (plus (Chr isSpace))"

definition rxLink :: rx where
  \<comment> \<open>\<^verbatim>\<open>/\[([^\]]+)\]\(([^)]+)\)/\<close>, the pattern of \<^verbatim>\<open>extractLink\<close> in Utils.js and of
     \<^verbatim>\<open>regex.link\<close> in MarkdownUtils.js\<close>
  "rxLink =
     seqs [lit ''['', Grp 1 (plus (notChr CHR '']'')), lit '']('', Grp 2 (plus (notChr CHR '')'')),
           lit '')'']"

subsection \<open>Line tests\<close>

definition isImage :: "string \<Rightarrow> bool" where
  "isImage line = test rxImage line"

definition extractImageUrl :: "string \<Rightarrow> string option" where
  \<comment> \<open>\<open>None\<close> is \<^verbatim>\<open>null\<close>\<close>
  "extractImageUrl line = map_option (\<lambda>(m, rest). grp 1 m) (search rxImageUrl line)"

definition isBlockquote :: "string \<Rightarrow> bool" where
  "isBlockquote line = testStart rxBlockquote line"

definition isHeading :: "string \<Rightarrow> bool" where
  "isHeading line = testStart rxHeading line"

definition isList :: "string \<Rightarrow> bool" where
  "isList line = testStart rxList line"

definition isTable :: "string \<Rightarrow> bool" where
  "isTable line =
     (test rxPipe line \<and>
      (indexOf (trim line) ''|'' = 0 \<or> testStart rxSeparatorChars (trim line)))"

definition isLink :: "string \<Rightarrow> bool" where
  \<comment> \<open>Modelled from the spec: \<^verbatim>\<open>isLink\<close> is called at MarkdownParser.js line 149 and
     defined in no file under src/. The spec's line classifier takes a line for an
     inline link on the "presence of \<^verbatim>\<open>[text](url)\<close> anywhere in the line"; the pattern is
     the one that \<^verbatim>\<open>extractLink\<close> of Utils.js uses for it.\<close>
  "isLink line = test rxLink line"

definition processBlockquote :: "string list \<Rightarrow> string list" where
  \<comment> \<open>Modelled from the spec: \<^verbatim>\<open>processBlockquote\<close> is called at MarkdownParser.js
     lines 133 and 170 and defined in no file under src/. The spec has the parser "join
     the buffer with newlines and emit one BlockquoteBlock"; \<^verbatim>\<open>insertBlockquote\<close> does the
     joining, so the buffered lines are handed over as they are.\<close>
  "processBlockquote blockquoteLines = blockquoteLines"

subsection \<open>Elements\<close>

definition insertCodeBlock :: "string \<Rightarrow> docop list" where
  "insertCodeBlock code = [CodeBlock (trim code)]"

definition insertHorizontalRule :: "docop list" where
  "insertHorizontalRule = [HorizontalRule]"

definition insertImage :: "string \<Rightarrow> docop list" where
  "insertImage imageUrl = [AppendImage imageUrl]"

definition insertBlockquote :: "string list \<Rightarrow> docop list" where
  "insertBlockquote blockquoteLines = [Blockquote (join [NL] blockquoteLines)]"

definition insertHeading :: "string \<Rightarrow> docop list option" where
  \<comment> \<open>\<open>None\<close> is the TypeError of \<^verbatim>\<open>line.match(/^#+/)[0]\<close> on a line that does not
     start with \<^verbatim>\<open>#\<close>\<close>
  "insertHeading line =
     (case matchStart rxHashes line of
        None \<Rightarrow> None
      | Some (m, rest) \<Rightarrow>
          Some [Heading (replaceStart rxHeadingMarker [] line) (length (grp 0 m))])"

definition insertLink :: "string \<Rightarrow> docop list" where
  \<comment> \<open>\<^verbatim>\<open>insertLink(body, line)\<close>: the function of Utils.js has a third parameter
     \<^verbatim>\<open>url\<close>, which this call leaves \<^verbatim>\<open>undefined\<close>\<close>
  "insertLink line = [LinkParagraph line None]"

definition insertWithCustomIndentation :: "string \<Rightarrow> docop list" where
  "insertWithCustomIndentation line =
     (let indentLevel =
            (case matchStart rxIndent line of
               None \<Rightarrow> (0 :: rat)
             | Some (m, rest) \<Rightarrow> of_nat (length (grp 0 m)) / 2)
      in [IndentedParagraph (trim line) (36 * indentLevel)])"

subsection \<open>Lists\<close>

definition getListDetails :: "string \<Rightarrow> rat \<times> bool" where
  \<comment> \<open>\<open>(indentLevel, isOrdered)\<close>; \<^verbatim>\<open>/^\s*/\<close> matches every line\<close>
  "getListDetails line =
     ((case matchStart rxLeadingSpace line of
         None \<Rightarrow> 0
       | Some (m, rest) \<Rightarrow> of_nat (length (grp 0 m)) / 2),
      testStart rxOrdered line)"

function popDeeper :: "rat list \<Rightarrow> int \<Rightarrow> rat \<Rightarrow> rat list \<times> int" where
  \<comment> \<open>the \<^verbatim>\<open>while\<close> loop of \<^verbatim>\<open>insertList\<close>; the stack holds the \<^verbatim>\<open>indentLevel\<close> of each
     frame, its top being the last element\<close>
  "popDeeper listItemStack currentNestingLevel indentLevel =
     (if listItemStack \<noteq> [] \<and> last listItemStack \<ge> indentLevel
      then popDeeper (butlast listItemStack) (currentNestingLevel - 1) indentLevel
      else (listItemStack, currentNestingLevel))"
  by pat_completeness auto
termination
  by (relation "measure (\<lambda>(st, n, i). length st)") auto

definition insertListLine :: "rat list \<times> int \<times> docop list \<Rightarrow> string \<Rightarrow> rat list \<times> int \<times> docop list" where
  \<comment> \<open>the body of the \<^verbatim>\<open>forEach\<close> of \<^verbatim>\<open>insertList\<close>, on the stack, the current nesting
     level and the items appended so far\<close>
  "insertListLine st line =
     (case st of (listItemStack, currentNestingLevel, out) \<Rightarrow>
        if isList line then
          (case getListDetails line of (indentLevel, isOrdered) \<Rightarrow>
             (case popDeeper listItemStack currentNestingLevel indentLevel of (stack', level) \<Rightarrow>
                (stack' @ [indentLevel],
                 int (length (stack' @ [indentLevel])),
                 out @ [ListItem (replaceStart rxListMarker [] (trim line))
                          (if isOrdered then NUMBER else BULLET) level])))
        else st)"

definition insertList :: "string \<Rightarrow> docop list" where
  \<comment> \<open>every call starts from an empty stack and nesting level 0\<close>
  "insertList line =
     (case fold (\<lambda>l st. insertListLine st l) (js_split NL line) ([], 0, []) of
        (listItemStack, currentNestingLevel, out) \<Rightarrow> out)"

subsection \<open>Tables\<close>

definition alignment :: "string \<Rightarrow> halign" where
  \<comment> \<open>the function mapped over the cells of the second line in \<^verbatim>\<open>insertTable\<close>\<close>
  "alignment c =
     (if test rxCenter c then CENTER else if test rxRight c then RIGHT else LEFT)"

definition alignmentAt :: "halign list \<Rightarrow> nat \<Rightarrow> halign" where
  \<comment> \<open>\<^verbatim>\<open>alignments[columnIndex] || DocumentApp.HorizontalAlignment.LEFT\<close>\<close>
  "alignmentAt alignments columnIndex =
     (if columnIndex < length alignments then alignments ! columnIndex else LEFT)"

definition headerCells :: "string \<Rightarrow> string list" where
  \<comment> \<open>\<^verbatim>\<open>line.split('|').filter(cell => cell.trim())\<close>\<close>
  "headerCells line = filter (\<lambda>c. trim c \<noteq> []) (js_split CHR ''|'' line)"

definition bodyCells :: "string \<Rightarrow> string list" where
  \<comment> \<open>\<^verbatim>\<open>line.split('|').filter(cell => cell)\<close>\<close>
  "bodyCells line = filter (\<lambda>c. c \<noteq> []) (js_split CHR ''|'' line)"

definition tableAlignments :: "string list \<Rightarrow> halign list" where
  \<comment> \<open>the array \<^verbatim>\<open>alignments\<close> of \<^verbatim>\<open>insertTable\<close>, for at least two lines\<close>
  "tableAlignments tableLines = map alignment (headerCells (tableLines ! 1))"

definition tableRow :: "bool \<Rightarrow> halign list \<Rightarrow> string list \<Rightarrow> cell list" where
  "tableRow heading alignments cells =
     map (\<lambda>(columnIndex, cellText). Cell (trim cellText) heading (alignmentAt alignments columnIndex))
       (enumerate 0 cells)"

definition insertTable :: "string list \<Rightarrow> docop list" where
  "insertTable tableLines =
     (if length tableLines < 3 then []
      else
        (let headerLine = headerCells (tableLines ! 0);
             alignments = tableAlignments tableLines
         in [AppendTable
               (tableRow True alignments headerLine
                # map (\<lambda>l. tableRow False alignments (bodyCells l)) (drop 2 tableLines))]))"

subsection \<open>Footnotes and reference-style links\<close>

definition extractFootnoteDefinition :: "globals \<Rightarrow> string \<Rightarrow> bool \<times> globals" where
  "extractFootnoteDefinition g line =
     (case matchStart rxFootnoteDefinition line of
        Some (m, rest) \<Rightarrow>
          (True, g\<lparr>footnotes := footnotesSet (grp 1 m) (grp 2 m) (footnotes g)\<rparr>)
      | None \<Rightarrow> (False, g))"

definition extractLinkDefinition :: "globals \<Rightarrow> string \<Rightarrow> bool \<times> globals" where
  "extractLinkDefinition g line =
     (case matchStart rxLinkDefinition line of
        Some (m, rest) \<Rightarrow>
          (True, g\<lparr>referenceLinks :=
                     refSet (grp 1 m) \<lparr>url = grp 2 m, title = grp 3 m\<rparr> (referenceLinks g)\<rparr>)
      | None \<Rightarrow> (False, g))"

definition insertFootnoteContent :: "globals \<Rightarrow> string \<Rightarrow> docop list" where
  "insertFootnoteContent g identifier =
     (case footnotesGet (footnotes g) identifier of
        None \<Rightarrow> []
      | Some v \<Rightarrow> if truthy (Some v) then [AppendFootnote v] else [])"

definition processFootnotesInText :: "globals \<Rightarrow> string \<Rightarrow> docop list \<times> string" where
  \<comment> \<open>the footnotes that the callback appends, one match after the other, and the text
     returned\<close>
  "processFootnotesInText g text =
     (concat (map (\<lambda>m. insertFootnoteContent g (grp 1 m)) (matchAll rxFootnoteReference text)),
      replaceAll rxFootnoteReference (\<lambda>m. []) text)"

definition referenceLinkText :: "globals \<Rightarrow> string \<Rightarrow> string \<Rightarrow> string" where
  \<comment> \<open>the callback of \<^verbatim>\<open>processReferenceLinksInText\<close>, on \<^verbatim>\<open>linkText\<close> and \<^verbatim>\<open>linkId\<close>\<close>
  "referenceLinkText g linkText linkId =
     (let v = refGet (referenceLinks g) linkId
      in if refTruthy v then linkText @ '' ('' @ refUrl v @ '')'' else linkText)"

definition processReferenceLinksInText :: "globals \<Rightarrow> string \<Rightarrow> string" where
  "processReferenceLinksInText g text =
     replaceAll rxReferenceLink (\<lambda>m. referenceLinkText g (grp 1 m) (grp 2 m)) text"

subsection \<open>Inline formatting\<close>

definition wrapTag :: "string \<Rightarrow> string \<Rightarrow> string \<Rightarrow> string" where
  \<comment> \<open>\<^verbatim>\<open>line.replace(/d(.*?)d/g, '<tag>$1</tag>')\<close>\<close>
  "wrapTag d tag line =
     replaceAll (rxDelimited d) (\<lambda>m. ''<'' @ tag @ ''>'' @ grp 1 m @ ''</'' @ tag @ ''>'') line"

definition processAdvancedFormatting :: "string \<Rightarrow> string" where
  "processAdvancedFormatting line =
     wrapTag ''~~'' ''strike''
       (wrapTag ''_'' ''i'' (wrapTag ''*'' ''i'' (wrapTag ''__'' ''b'' (wrapTag ''**'' ''b'' line))))"

subsection \<open>The conversion\<close>

text \<open>
  \<^verbatim>\<open>parseAndInsertMarkdown\<close> of MarkdownParser.js, lines 68 to 175. Its local variables
  and the calls made on the body so far form the state of the second pass;
  \<open>thrown\<close> records an exception, after which nothing more is done.
\<close>

record pstate =
  inTable :: bool
  tableLines :: "string list"
  inBlockquote :: bool
  blockquoteLines :: "string list"
  inCodeBlock :: bool
  codeBlockText :: string
  body :: "docop list"
  thrown :: bool

datatype cursor = NoCursor | CursorInserts | CursorFails
  \<comment> \<open>\<^verbatim>\<open>doc.getCursor()\<close> is \<^verbatim>\<open>null\<close>; or \<^verbatim>\<open>cursor.insertText\<close> returns the element; or
     it returns \<^verbatim>\<open>null\<close>\<close>

definition initialState :: "cursor \<Rightarrow> string \<Rightarrow> pstate" where
  \<comment> \<open>lines 73 to 95: the source text itself is put into the document first\<close>
  "initialState cur markdownText =
     \<lparr>inTable = False, tableLines = [], inBlockquote = False, blockquoteLines = [],
      inCodeBlock = False, codeBlockText = [],
      body = (case cur of CursorInserts \<Rightarrow> [CursorInsertText markdownText]
              | _ \<Rightarrow> [AppendParagraph markdownText]),
      thrown = False\<rparr>"

definition collectLine :: "string \<Rightarrow> globals \<Rightarrow> globals" where
  \<comment> \<open>the body of the first \<^verbatim>\<open>forEach\<close>, lines 102 and 103; the results of the two calls
     are not used\<close>
  "collectLine line g = snd (extractLinkDefinition (snd (extractFootnoteDefinition g line)) line)"

definition firstPass :: "globals \<Rightarrow> string list \<Rightarrow> globals" where
  \<comment> \<open>lines 101 to 104\<close>
  "firstPass g lines = fold collectLine lines g"

definition processLine :: "globals \<Rightarrow> string \<Rightarrow> pstate \<Rightarrow> pstate" where
  \<comment> \<open>the body of the second \<^verbatim>\<open>forEach\<close>, lines 108 to 162\<close>
  "processLine g line s =
     (if thrown s then s
      else if startsWith line ''```'' then
        (if inCodeBlock s then
           s\<lparr>body := body s @ insertCodeBlock (trim (codeBlockText s)),
             codeBlockText := [], inCodeBlock := False\<rparr>
         else s\<lparr>inCodeBlock := True\<rparr>)
      else if inCodeBlock s then s\<lparr>codeBlockText := codeBlockText s @ line @ [NL]\<rparr>
      else if startsWith line ''---'' then s\<lparr>body := body s @ insertHorizontalRule\<rparr>
      else if isImage line then
        (if inBlockquote s then s\<lparr>blockquoteLines := blockquoteLines s @ [line]\<rparr>
         else (case extractImageUrl line of
                 None \<Rightarrow> s
               | Some imageUrl \<Rightarrow>
                   if imageUrl \<noteq> [] then s\<lparr>body := body s @ insertImage imageUrl\<rparr> else s))
      else if isBlockquote line then
        s\<lparr>inBlockquote := True,
          blockquoteLines := blockquoteLines s @ [replaceStart rxQuoteMarker [] line]\<rparr>
      else if trim line = [] \<and> inBlockquote s then
        s\<lparr>body := body s @ insertBlockquote (processBlockquote (blockquoteLines s)),
          blockquoteLines := [], inBlockquote := False\<rparr>
      else if isHeading line then
        (case insertHeading line of
           None \<Rightarrow> s\<lparr>thrown := True\<rparr>
         | Some ops \<Rightarrow> s\<lparr>body := body s @ ops\<rparr>)
      else if isList line then s\<lparr>body := body s @ insertList line\<rparr>
      else if isTable line \<and> \<not> inTable s then s\<lparr>inTable := True, tableLines := [line]\<rparr>
      else if \<not> isTable line \<and> inTable s then
        s\<lparr>body := body s @ insertTable (tableLines s), tableLines := [], inTable := False\<rparr>
      else if isTable line \<and> inTable s then s\<lparr>tableLines := tableLines s @ [line]\<rparr>
      else if isLink line then s\<lparr>body := body s @ insertLink line\<rparr>
      else
        (case processFootnotesInText g (processAdvancedFormatting line) of
           (notes, text) \<Rightarrow>
             (let processedText = processReferenceLinksInText g text;
                  s' = s\<lparr>body := body s @ notes @ insertWithCustomIndentation processedText\<rparr>
              in if inBlockquote s' then
                   s'\<lparr>blockquoteLines := blockquoteLines s' @ [processedText]\<rparr>
                 else if \<not> inTable s' then
                   s'\<lparr>body := body s' @ [AppendParagraph processedText]\<rparr>
                 else s')))"

definition secondPass :: "globals \<Rightarrow> string list \<Rightarrow> pstate \<Rightarrow> pstate" where
  \<comment> \<open>lines 107 to 163\<close>
  "secondPass g lines s = fold (processLine g) lines s"

definition finalize :: "pstate \<Rightarrow> pstate" where
  \<comment> \<open>lines 165 to 174\<close>
  "finalize s =
     (if thrown s then s
      else
        (let s1 = (if inTable s then s\<lparr>body := body s @ insertTable (tableLines s)\<rparr> else s);
             s2 = (if inBlockquote s1
                   then s1\<lparr>body := body s1 @ insertBlockquote (processBlockquote (blockquoteLines s1))\<rparr>
                   else s1)
         in if inCodeBlock s2
            then s2\<lparr>body := body s2 @ insertCodeBlock (trim (codeBlockText s2))\<rparr>
            else s2))"

definition parseAndInsertMarkdown :: "cursor \<Rightarrow> globals \<Rightarrow> string \<Rightarrow> globals \<times> pstate" where
  \<comment> \<open>the tables as the call leaves them, and the final state with the calls made on
     the body\<close>
  "parseAndInsertMarkdown cur g markdownText =
     (let lines = js_split NL markdownText;
          g' = firstPass g lines
      in (g', finalize (secondPass g' lines (initialState cur markdownText))))"

definition converted :: "string \<Rightarrow> docop list" where
  \<comment> \<open>what one call in a freshly loaded script appends to the body after the source
     text: the elements of the second pass and of the finalisation\<close>
  "converted markdownText = tl (body (snd (parseAndInsertMarkdown NoCursor emptyGlobals markdownText)))"

definition overrideTables :: "globals \<Rightarrow> globals \<Rightarrow> globals" where
  \<comment> \<open>the tables \<open>g\<close> with the entries of \<open>d\<close> written over them\<close>
  "overrideTables g d =
     \<lparr>footnotes = footnotes g ++ footnotes d,
      referenceLinks =
        \<lparr>refOwn = refOwn (referenceLinks g) ++ refOwn (referenceLinks d),
         refProto = (case refProto (referenceLinks d) of
                       Some x \<Rightarrow> Some x
                     | None \<Rightarrow> refProto (referenceLinks g))\<rparr>\<rparr>"

definition buffersEmpty :: "pstate \<Rightarrow> bool" where
  \<comment> \<open>a buffer holds something only while its construct is open\<close>
  "buffersEmpty s = ((inCodeBlock s \<or> codeBlockText s = [])
     \<and> (inBlockquote s \<or> blockquoteLines s = []) \<and> (inTable s \<or> tableLines s = []))"

section \<open>MarkdownUtils.js\<close>

subsection \<open>Its regular expressions\<close>

definition rxUHeading :: rx where
  \<comment> \<open>\<^verbatim>\<open>regex.heading = /^(#+)\s+(.*)/\<close>\<close>
  "rxUHeading = seqs [Grp 1 (plus (chr CHR ''#'')), plus (Chr isSpace), Grp 2 (Star dot)]"

definition rxListItem :: rx where
  \<comment> \<open>\<^verbatim>\<open>regex.listItem = /^(\s*)([*\-+]|\d+\.)\s+(.*)/\<close>\<close>
  "rxListItem =
     seqs [Grp 1 (Star (Chr isSpace)),
           Grp 2 (Alt (Chr (\<lambda>x. x = CHR ''*'' \<or> x = CHR ''-'' \<or> x = CHR ''+''))
                      (seqs [plus (Chr isDigit), chr CHR ''.''])),
           plus (Chr isSpace), Grp 3 (Star dot)]"

definition rxBoldItalic :: rx where
  \<comment> \<open>\<^verbatim>\<open>regex.boldItalic = /(\*\*\*|___)(.*?)\1/g\<close>\<close>
  "rxBoldItalic = seqs [Grp 1 (Alt (lit ''***'') (lit ''___'')), Grp 2 (LazyStar dot), Ref 1]"

definition rxBold :: rx where
  \<comment> \<open>\<^verbatim>\<open>regex.bold = /(\*\*|__)(.*?)\1/g\<close>\<close>
  "rxBold = seqs [Grp 1 (Alt (lit ''**'') (lit ''__'')), Grp 2 (LazyStar dot), Ref 1]"

definition rxItalic :: rx where
  \<comment> \<open>\<^verbatim>\<open>regex.italic = /(\*|_)(.*?)\1/g\<close>\<close>
  "rxItalic = seqs [Grp 1 (Alt (lit ''*'') (lit ''_'')), Grp 2 (LazyStar dot), Ref 1]"

definition rxStrikethrough :: rx where
  \<comment> \<open>\<^verbatim>\<open>regex.strikethrough = /~~(.*?)~~/g\<close>\<close>
  "rxStrikethrough = seqs [lit ''~~'', Grp 1 (LazyStar dot), lit ''~~'']"

definition rxUBlockquote :: rx where
  \<comment> \<open>\<^verbatim>\<open>regex.blockquote = /^>\s*(.*)/\<close>\<close>
  "rxUBlockquote = seqs [chr CHR ''>'', Star (Chr isSpace), Grp 1 (Star dot)]"

definition rxCodeBlock :: rx where
  \<comment> \<open>\<^verbatim>\<open>regex.codeBlock = /^```/\<close>\<close>
  "rxCodeBlock = lit ''```''"

definition rxHorizontalRule :: rx where
  \<comment> \<open>\<^verbatim>\<open>regex.horizontalRule = /^-{3,}$/\<close>\<close>
  "rxHorizontalRule = seqs [atLeast 3 (chr CHR ''-''), Eol]"

definition rxUFootnote :: rx where
  \<comment> \<open>\<^verbatim>\<open>regex.footnote = /^\[\^(\w+)\]:\s*(.*)/\<close>\<close>
  "rxUFootnote =
     seqs [lit ''[^'', Grp 1 (plus (Chr isWordChar)), lit '']:'', Star (Chr isSpace),
           Grp 2 (Star dot)]"

definition rxTable :: rx where
  \<comment> \<open>\<^verbatim>\<open>regex.table = /^\|(.+)\|$/\<close>\<close>
  "rxTable = seqs [chr CHR ''|'', Grp 1 (plus dot), chr CHR ''|'', Eol]"

definition rxTableSeparator :: rx where
  \<comment> \<open>\<^verbatim>\<open>regex.tableSeparator = /^\|(:?-+:?)+\|$/\<close>\<close>
  "rxTableSeparator =
     seqs [chr CHR ''|'',
           plus (Grp 1 (seqs [opt (chr CHR '':''), plus (chr CHR ''-''), opt (chr CHR '':'')])),
           chr CHR ''|'', Eol]"

subsection \<open>The line classifier\<close>

datatype lineType =
    T_codeBlockEnd | T_codeBlockContent | T_codeBlockStart | T_heading | T_listItem
  | T_blockquote | T_horizontalRule | T_table | T_footnote | T_link | T_paragraph

definition determineLineType :: "string \<Rightarrow> bool \<Rightarrow> nat \<Rightarrow> lineType \<times> bool \<times> nat" where
  \<comment> \<open>\<open>determineLineType line inCode lastIndex\<close>, where \<open>inCode\<close> is \<^verbatim>\<open>context.inCodeBlock\<close>
     and \<open>lastIndex\<close> is \<^verbatim>\<open>regex.link.lastIndex\<close>: the type returned and the two as the call
     leaves them\<close>
  "determineLineType line inCode lastIndex =
     (if inCode then
        (if testStart rxCodeBlock line then (T_codeBlockEnd, False, lastIndex)
         else (T_codeBlockContent, inCode, lastIndex))
      else if testStart rxCodeBlock line then (T_codeBlockStart, True, lastIndex)
      else if testStart rxUHeading line then (T_heading, inCode, lastIndex)
      else if testStart rxListItem line then (T_listItem, inCode, lastIndex)
      else if testStart rxUBlockquote line then (T_blockquote, inCode, lastIndex)
      else if testStart rxHorizontalRule line then (T_horizontalRule, inCode, lastIndex)
      else if testStart rxTable line \<or> testStart rxTableSeparator line
        then (T_table, inCode, lastIndex)
      else if testStart rxUFootnote line then (T_footnote, inCode, lastIndex)
      else (case testGlobal rxLink line lastIndex of
              (found, lastIndex') \<Rightarrow>
                (if found then T_link else T_paragraph, inCode, lastIndex')))"

subsection \<open>Inline formatting\<close>

datatype styleCall = SetBold int int | SetItalic int int | SetStrikethrough int int
  \<comment> \<open>\<^verbatim>\<open>element.editAsText().setBold(startIndex, endIndex, true)\<close> and its siblings\<close>

record element =
  elText :: string
  elCalls :: "styleCall list"

definition appendParagraph :: "string \<Rightarrow> element" where
  \<comment> \<open>the element that \<^verbatim>\<open>body.appendParagraph(text)\<close> returns\<close>
  "appendParagraph text = \<lparr>elText = text, elCalls = []\<rparr>"

definition calculateMatchIndices :: "string \<Rightarrow> string \<Rightarrow> int \<times> int" where
  "calculateMatchIndices fullText matchText =
     (let startIndex = indexOf fullText matchText
      in (startIndex, startIndex + int (length matchText) - 1))"

definition styleCalls :: "rx \<Rightarrow> nat \<Rightarrow> (int \<Rightarrow> int \<Rightarrow> styleCall list) \<Rightarrow> element \<Rightarrow> string \<Rightarrow> styleCall list" where
  \<comment> \<open>\<^verbatim>\<open>[...text.matchAll(r)].forEach(match => ...)\<close> with the indices of \<^verbatim>\<open>match[k]\<close>\<close>
  "styleCalls r k f el text =
     concat (map (\<lambda>m. case calculateMatchIndices (elText el) (grp k m) of (i, j) \<Rightarrow> f i j)
       (matchAll r text))"

definition applyBasicFormatting :: "element \<Rightarrow> string \<Rightarrow> element" where
  "applyBasicFormatting el text =
     el\<lparr>elCalls := elCalls el
        @ styleCalls rxBoldItalic 2 (\<lambda>i j. [SetBold i j, SetItalic i j]) el text
        @ styleCalls rxBold 2 (\<lambda>i j. [SetBold i j]) el text
        @ styleCalls rxItalic 2 (\<lambda>i j. [SetItalic i j]) el text
        @ styleCalls rxStrikethrough 1 (\<lambda>i j. [SetStrikethrough i j]) el text\<rparr>"

definition insertParagraph :: "string \<Rightarrow> element" where
  \<comment> \<open>\<^verbatim>\<open>MarkdownUtils.insertParagraph\<close>: the paragraph appended and the styles set on it\<close>
  "insertParagraph line = applyBasicFormatting (appendParagraph line) line"

subsection \<open>Finalisation\<close>

datatype jsError = TypeError

record parseContext =
  ctxInCodeBlock :: bool
  ctxCodeBlockText :: "string option"
    \<comment> \<open>\<open>None\<close> while \<^verbatim>\<open>context.codeBlockText\<close> is \<^verbatim>\<open>undefined\<close>\<close>
  ctxCurrentListLevel :: "int option"
  ctxInBlockquote :: bool
  ctxInTable :: bool

definition finalizeOpenElements :: "parseContext \<Rightarrow> jsError + docop list \<times> parseContext" where
  \<comment> \<open>the paragraphs appended and the context left; the fields that are only written
     (\<^verbatim>\<open>tableRows\<close>, \<^verbatim>\<open>inSpecialFormatting\<close>, \<^verbatim>\<open>customCounter\<close>, \<^verbatim>\<open>insertionPosition\<close>,
     \<^verbatim>\<open>tempContent\<close>) are left out. \<^verbatim>\<open>undefined.trim()\<close> is a TypeError.\<close>
  "finalizeOpenElements ctx =
     (let reset = (\<lambda>c. c\<lparr>ctxCurrentListLevel :=
                            (case ctxCurrentListLevel c of
                               Some n \<Rightarrow> if n > 0 then Some 0 else Some n
                             | None \<Rightarrow> None),
                          ctxInBlockquote := False, ctxInTable := False\<rparr>)
      in if ctxInCodeBlock ctx \<and> ctxCodeBlockText ctx \<noteq> Some [] then
           (case ctxCodeBlockText ctx of
              None \<Rightarrow> Inl TypeError
            | Some text \<Rightarrow>
                Inr ([CodeBlock (trim text)],
                     reset (ctx\<lparr>ctxInCodeBlock := False, ctxCodeBlockText := Some []\<rparr>)))
         else Inr ([], reset ctx))"

section \<open>What a regular expression matches\<close>

text \<open>
  The words that a regular expression without \<^verbatim>\<open>$\<close> and without back-references
  matches, as a set: the specification against which the matcher is checked.
\<close>

inductive_set star :: "string set \<Rightarrow> string set" for L :: "string set" where
  star_empty: "[] \<in> star L"
| star_step: "u \<in> L \<Longrightarrow> v \<in> star L \<Longrightarrow> u @ v \<in> star L"

fun plain :: "rx \<Rightarrow> bool" where
  "plain (Chr P) = True"
| "plain Eps = True"
| "plain Eol = False"
| "plain (Seq a b) = (plain a \<and> plain b)"
| "plain (Alt a b) = (plain a \<and> plain b)"
| "plain (Star a) = plain a"
| "plain (LazyStar a) = plain a"
| "plain (Grp k a) = plain a"
| "plain (Ref k) = False"

fun lang :: "rx \<Rightarrow> string set" where
  "lang (Chr P) = {[x] | x. P x}"
| "lang Eps = {[]}"
| "lang Eol = {}"
| "lang (Seq a b) = {u @ v | u v. u \<in> lang a \<and> v \<in> lang b}"
| "lang (Alt a b) = lang a \<union> lang b"
| "lang (Star a) = star (lang a)"
| "lang (LazyStar a) = star (lang a)"
| "lang (Grp k a) = lang a"
| "lang (Ref k) = {}"

section \<open>The matcher and the words it matches\<close>

text \<open>
  The equations of \<open>ms\<close> for the two stars call \<open>ms\<close> on the same expression again; as
  rewrite rules they are replaced by the membership lemmas below.
\<close>

declare ms.simps(6) [simp del] ms.simps(7) [simp del]

lemma star_nonempty_split:
  "w \<in> star L \<Longrightarrow> w \<noteq> [] \<Longrightarrow> \<exists>u v. u \<in> L \<and> u \<noteq> [] \<and> v \<in> star L \<and> w = u @ v"
proof (induction rule: star.induct)
  case star_empty
  then show ?case by simp
next
  case (star_step u v)
  show ?case
  proof (cases "u = []")
    case True
    with star_step show ?thesis by simp
  next
    case False
    with star_step show ?thesis by blast
  qed
qed

lemma in_ms_Seq:
  "x \<in> set (ms (Seq a b) (c, s)) \<longleftrightarrow>
     (\<exists>c1 s1. (c1, s1) \<in> set (ms a (c, s)) \<and> x \<in> set (ms b (c1, s1)))"
  by auto

lemma in_ms_Star:
  "x \<in> set (ms (Star a) (c, s)) \<longleftrightarrow>
     x = (c, s) \<or> (\<exists>c1 s1. (c1, s1) \<in> set (ms a (c, s)) \<and> length s1 < length s
        \<and> x \<in> set (ms (Star a) (c1, s1)))"
  by (subst ms.simps(6)) (auto simp del: ms.simps split: if_splits)

lemma in_ms_LazyStar:
  "x \<in> set (ms (LazyStar a) (c, s)) \<longleftrightarrow>
     x = (c, s) \<or> (\<exists>c1 s1. (c1, s1) \<in> set (ms a (c, s)) \<and> length s1 < length s
        \<and> x \<in> set (ms (LazyStar a) (c1, s1)))"
  by (subst ms.simps(7)) (auto simp del: ms.simps split: if_splits)

lemma in_ms_Grp:
  "(c2, s2) \<in> set (ms (Grp k a) (c, s)) \<longleftrightarrow>
     (\<exists>c1. (c1, s2) \<in> set (ms a (c, s)) \<and> c2 = (k, take (length s - length s2) s) # c1)"
  by auto

lemma ms_sound:
  "(c', s') \<in> set (ms r (c, s)) \<Longrightarrow> plain r \<Longrightarrow> \<exists>w \<in> lang r. s = w @ s'"
proof (induction r "(c, s)" arbitrary: c s c' s' rule: ms.induct)
  case (1 P c s)
  then show ?case by (cases s) (auto split: if_splits)
next
  case (2 c s)
  then show ?case by simp
next
  case (3 c s)
  then show ?case by simp
next
  case (4 a b c s)
  from 4(3) obtain c1 s1 where m1: "(c1, s1) \<in> set (ms a (c, s))"
    and m2: "(c', s') \<in> set (ms b (c1, s1))"
    unfolding in_ms_Seq by blast
  from 4(1)[OF m1] 4(4) obtain u where u: "u \<in> lang a" "s = u @ s1" by auto
  from 4(2)[OF m1 refl m2] 4(4) obtain v where v: "v \<in> lang b" "s1 = v @ s'" by auto
  from u v have "u @ v \<in> lang (Seq a b)" "s = (u @ v) @ s'" by auto
  then show ?case by blast
next
  case (5 a b c s)
  from 5(3) consider "(c', s') \<in> set (ms a (c, s))" | "(c', s') \<in> set (ms b (c, s))"
    by auto
  then show ?case
  proof cases
    case 1
    from 5(1)[OF 1] 5(4) show ?thesis by auto
  next
    case 2
    from 5(2)[OF 2] 5(4) show ?thesis by auto
  qed
next
  case (6 a c s)
  from 6(3) consider "(c', s') = (c, s)"
    | c1 s1 where "(c1, s1) \<in> set (ms a (c, s))" "length s1 < length s"
        "(c', s') \<in> set (ms (Star a) (c1, s1))"
    using iffD1[OF in_ms_Star] by blast
  then show ?case
  proof cases
    case 1
    then show ?thesis by (auto intro: star_empty)
  next
    case 2
    from 6(1)[OF 2(1)] 6(4) obtain u where u: "u \<in> lang a" "s = u @ s1" by auto
    from 6(2)[OF 2(1) refl 2(2) 2(3) 6(4)] obtain v where v: "v \<in> star (lang a)" "s1 = v @ s'"
      by auto
    from u v have "u @ v \<in> star (lang a)" "s = (u @ v) @ s'" by (auto intro: star_step)
    then show ?thesis by auto
  qed
next
  case (7 a c s)
  from 7(3) consider "(c', s') = (c, s)"
    | c1 s1 where "(c1, s1) \<in> set (ms a (c, s))" "length s1 < length s"
        "(c', s') \<in> set (ms (LazyStar a) (c1, s1))"
    using iffD1[OF in_ms_LazyStar] by blast
  then show ?case
  proof cases
    case 1
    then show ?thesis by (auto intro: star_empty)
  next
    case 2
    from 7(1)[OF 2(1)] 7(4) obtain u where u: "u \<in> lang a" "s = u @ s1" by auto
    from 7(2)[OF 2(1) refl 2(2) 2(3) 7(4)] obtain v where v: "v \<in> star (lang a)" "s1 = v @ s'"
      by auto
    from u v have "u @ v \<in> star (lang a)" "s = (u @ v) @ s'" by (auto intro: star_step)
    then show ?thesis by auto
  qed
next
  case (8 k a c s)
  from 8(2) obtain c1 where "(c1, s') \<in> set (ms a (c, s))" unfolding in_ms_Grp by blast
  from 8(1)[OF this] 8(3) show ?case by auto
next
  case (9 k c s)
  then show ?case by simp
qed

lemma ms_complete:
  "plain r \<Longrightarrow> w \<in> lang r \<Longrightarrow> \<exists>c'. (c', t) \<in> set (ms r (c, w @ t))"
proof (induction r "(c, w @ t)" arbitrary: c w t rule: ms.induct)
  case (1 P c)
  then show ?case by auto
next
  case (2 c)
  then show ?case by simp
next
  case (3 c)
  then show ?case by simp
next
  case (4 a b c)
  from 4(4) obtain u v where u: "u \<in> lang a" and v: "v \<in> lang b" and w: "w = u @ v" by auto
  from 4(3) have pa: "plain a" and pb: "plain b" by auto
  from 4(1)[of u "v @ t"] w pa u obtain c1 where m1: "(c1, v @ t) \<in> set (ms a (c, w @ t))"
    by auto
  from 4(2)[OF m1 refl pb v] obtain c2 where "(c2, t) \<in> set (ms b (c1, v @ t))" by blast
  with m1 show ?case unfolding in_ms_Seq by blast
next
  case (5 a b c)
  from 5(4) consider "w \<in> lang a" | "w \<in> lang b" by auto
  then show ?case
  proof cases
    case 1
    from 5(1)[OF refl _ 1] 5(3) obtain c1 where "(c1, t) \<in> set (ms a (c, w @ t))" by auto
    then show ?thesis by auto
  next
    case 2
    from 5(2)[OF refl _ 2] 5(3) obtain c1 where "(c1, t) \<in> set (ms b (c, w @ t))" by auto
    then show ?thesis by auto
  qed
next
  case (6 a c)
  from 6(4) have w: "w \<in> star (lang a)" by simp
  show ?case
  proof (cases "w = []")
    case True
    then show ?thesis using iffD2[OF in_ms_Star, of "(c, t)" c t a] by auto
  next
    case False
    from star_nonempty_split[OF w False] obtain u v where
      u: "u \<in> lang a" "u \<noteq> []" and v: "v \<in> star (lang a)" and wv: "w = u @ v" by blast
    from 6(3) have pa: "plain a" by simp
    from 6(1)[of u "v @ t"] wv pa u obtain c1 where m1: "(c1, v @ t) \<in> set (ms a (c, w @ t))"
      by auto
    have len: "length (v @ t) < length (w @ t)" using wv u by simp
    from 6(2)[OF m1 refl len 6(3)] v obtain c2 where
      "(c2, t) \<in> set (ms (Star a) (c1, v @ t))" by auto
    with m1 len show ?thesis using iffD2[OF in_ms_Star, of "(c2, t)" c "w @ t" a] by blast
  qed
next
  case (7 a c)
  from 7(4) have w: "w \<in> star (lang a)" by simp
  show ?case
  proof (cases "w = []")
    case True
    then show ?thesis using iffD2[OF in_ms_LazyStar, of "(c, t)" c t a] by auto
  next
    case False
    from star_nonempty_split[OF w False] obtain u v where
      u: "u \<in> lang a" "u \<noteq> []" and v: "v \<in> star (lang a)" and wv: "w = u @ v" by blast
    from 7(3) have pa: "plain a" by simp
    from 7(1)[of u "v @ t"] wv pa u obtain c1 where m1: "(c1, v @ t) \<in> set (ms a (c, w @ t))"
      by auto
    have len: "length (v @ t) < length (w @ t)" using wv u by simp
    from 7(2)[OF m1 refl len 7(3)] v obtain c2 where
      "(c2, t) \<in> set (ms (LazyStar a) (c1, v @ t))" by auto
    with m1 len show ?thesis using iffD2[OF in_ms_LazyStar, of "(c2, t)" c "w @ t" a] by blast
  qed
next
  case (8 k a c)
  from 8(1)[of w t] 8(2,3) obtain c1 where "(c1, t) \<in> set (ms a (c, w @ t))" by auto
  then show ?case unfolding in_ms_Grp by blast
next
  case (9 k c)
  then show ?case by simp
qed

subsection \<open>Tests in terms of words\<close>

lemma lang_chr [simp]: "lang (chr ch) = {[ch]}"
  by (auto simp: chr_def)

lemma lang_notChr [simp]: "lang (notChr ch) = {[x] | x. x \<noteq> ch}"
  by (simp add: notChr_def)

lemma lang_dot [simp]: "lang dot = {[x] | x. \<not> isLineTerminator x}"
  by (simp add: dot_def)

lemma lang_seqs_Nil [simp]: "lang (seqs []) = {[]}"
  by (simp add: seqs_def)

lemma lang_seqs_Cons [simp]:
  "lang (seqs (r # rs)) = {u @ v | u v. u \<in> lang r \<and> v \<in> lang (seqs rs)}"
  by (simp add: seqs_def)

lemma lang_lit [simp]: "lang (lit w) = {w}"
  by (induction w) (auto simp: lit_def)

lemma lang_plus [simp]: "lang (plus r) = {u @ v | u v. u \<in> lang r \<and> v \<in> star (lang r)}"
  by (simp add: plus_def)

lemma lang_opt [simp]: "lang (opt r) = insert [] (lang r)"
  by (auto simp: opt_def)

lemma plain_chr [simp]: "plain (chr ch)"
  by (simp add: chr_def)

lemma plain_notChr [simp]: "plain (notChr ch)"
  by (simp add: notChr_def)

lemma plain_dot [simp]: "plain dot"
  by (simp add: dot_def)

lemma plain_seqs [simp]: "plain (seqs rs) = list_all plain rs"
  by (induction rs) (simp_all add: seqs_def)

lemma plain_lit [simp]: "plain (lit w)"
  by (induction w) (simp_all add: lit_def)

lemma plain_plus [simp]: "plain (plus r) = plain r"
  by (simp add: plus_def)

lemma plain_opt [simp]: "plain (opt r) = plain r"
  by (simp add: opt_def)

lemma star_chars: "star {[x] | x. P x} = {w. \<forall>x \<in> set w. P x}"
proof (rule set_eqI, rule iffI)
  fix w assume "w \<in> star {[x] | x. P x}"
  then show "w \<in> {w. \<forall>x \<in> set w. P x}"
    by (induction rule: star.induct) auto
next
  fix w assume "w \<in> {w. \<forall>x \<in> set w. P x}"
  then have "\<forall>x \<in> set w. P x" by simp
  then show "w \<in> star {[x] | x. P x}"
  proof (induction w)
    case Nil
    show ?case by (rule star_empty)
  next
    case (Cons a w)
    then have "[a] \<in> {[x] | x. P x}" "w \<in> star {[x] | x. P x}" by auto
    then have "[a] @ w \<in> star {[x] | x. P x}" by (rule star_step)
    then show ?case by simp
  qed
qed

lemma star_one_char: "star {[ch]} = {replicate n ch | n. True}"
proof -
  have "star {[ch]} = star {[x] | x. x = ch}" by simp
  also have "\<dots> = {w. \<forall>x \<in> set w. x = ch}" by (rule star_chars)
  also have "\<dots> = {replicate n ch | n. True}"
  proof (rule set_eqI, rule iffI)
    fix w assume "w \<in> {w. \<forall>x \<in> set w. x = ch}"
    then have "w = replicate (length w) ch" by (auto simp: replicate_length_same)
    then show "w \<in> {replicate n ch | n. True}" by blast
  next
    fix w assume "w \<in> {replicate n ch | n. True}"
    then show "w \<in> {w. \<forall>x \<in> set w. x = ch}" by auto
  qed
  finally show ?thesis .
qed

lemma matchStart_None: "matchStart r s = None \<longleftrightarrow> ms r ([], s) = []"
  by (auto simp: matchStart_def split: list.splits)

lemma testStart_iff:
  assumes "plain r"
  shows "testStart r s \<longleftrightarrow> (\<exists>w t. w \<in> lang r \<and> s = w @ t)"
proof
  assume "testStart r s"
  then obtain c' s' where "(c', s') \<in> set (ms r ([], s))"
    by (cases "ms r ([], s)") (auto simp: testStart_def matchStart_None)
  from ms_sound[OF this assms] show "\<exists>w t. w \<in> lang r \<and> s = w @ t" by blast
next
  assume "\<exists>w t. w \<in> lang r \<and> s = w @ t"
  then obtain w t where "w \<in> lang r" "s = w @ t" by blast
  with ms_complete[OF assms, of w t "[]"] have "ms r ([], s) \<noteq> []" by auto
  then show "testStart r s" by (simp add: testStart_def matchStart_None)
qed

lemma search_None:
  "search r s = None \<longleftrightarrow> (\<forall>pre post. s = pre @ post \<longrightarrow> \<not> testStart r post)"
proof (induction s)
  case Nil
  show ?case by (cases "matchStart r []") (auto simp: testStart_def)
next
  case (Cons x xs)
  show ?case
  proof (cases "matchStart r (x # xs)")
    case None
    have "(\<forall>pre post. x # xs = pre @ post \<longrightarrow> \<not> testStart r post)
      \<longleftrightarrow> \<not> testStart r (x # xs) \<and> (\<forall>pre post. xs = pre @ post \<longrightarrow> \<not> testStart r post)"
      by (auto simp: Cons_eq_append_conv)
    with None Cons show ?thesis by (simp add: testStart_def)
  next
    case (Some m)
    then have "testStart r (x # xs)" by (simp add: testStart_def)
    then have "\<not> (\<forall>pre post. x # xs = pre @ post \<longrightarrow> \<not> testStart r post)"
      by (metis append_Nil)
    with Some show ?thesis by simp
  qed
qed

lemma test_iff:
  assumes "plain r"
  shows "test r s \<longleftrightarrow> (\<exists>pre w post. w \<in> lang r \<and> s = pre @ w @ post)"
  unfolding test_def search_None testStart_iff[OF assms] by blast

lemma testStart_Eol:
  assumes "plain r"
  shows "testStart (seqs [r, Eol]) s \<longleftrightarrow> s \<in> lang r"
proof
  assume "testStart (seqs [r, Eol]) s"
  then obtain c' s' where m: "(c', s') \<in> set (ms (Seq r (Seq Eol Eps)) ([], s))"
    by (cases "ms (seqs [r, Eol]) ([], s)") (auto simp: testStart_def matchStart_None seqs_def)
  then obtain c1 s1 where m1: "(c1, s1) \<in> set (ms r ([], s))"
    and m2: "(c', s') \<in> set (ms (Seq Eol Eps) (c1, s1))"
    using iffD1[OF in_ms_Seq] by blast
  from m2 have "s1 = []" by (auto split: if_splits)
  with ms_sound[OF m1 assms] show "s \<in> lang r" by auto
next
  assume "s \<in> lang r"
  with ms_complete[OF assms, of s "[]" "[]"] obtain c1 where "(c1, []) \<in> set (ms r ([], s))"
    by auto
  moreover have "(c1, []) \<in> set (ms (Seq Eol Eps) (c1, []))" by simp
  ultimately have "(c1, []) \<in> set (ms (Seq r (Seq Eol Eps)) ([], s))"
    using iffD2[OF in_ms_Seq] by blast
  then have "ms (Seq r (Seq Eol Eps)) ([], s) \<noteq> []" by (metis empty_iff empty_set)
  moreover have "seqs [r, Eol] = Seq r (Seq Eol Eps)" by (simp add: seqs_def)
  ultimately have "ms (seqs [r, Eol]) ([], s) \<noteq> []" by simp
  then show "testStart (seqs [r, Eol]) s" by (simp add: testStart_def matchStart_None)
qed

section \<open>Trimming and joining\<close>

lemma trim_append_space: "\<forall>x \<in> set ys. isSpace x \<Longrightarrow> trim (xs @ ys) = trim xs"
proof (cases "\<forall>x \<in> set xs. isSpace x")
  case True
  assume "\<forall>x \<in> set ys. isSpace x"
  with True have "\<forall>x \<in> set (xs @ ys). isSpace x" by auto
  then have A: "dropWhile isSpace (xs @ ys) = []" by (metis dropWhile_eq_Nil_conv)
  from True have B: "dropWhile isSpace xs = []" by (metis dropWhile_eq_Nil_conv)
  show ?thesis unfolding trim_def A B ..
next
  case False
  assume ys: "\<forall>x \<in> set ys. isSpace x"
  from False have "dropWhile isSpace (xs @ ys) = dropWhile isSpace xs @ ys"
    by (auto simp: dropWhile_append1)
  moreover have "dropWhile isSpace (rev ys @ zs) = dropWhile isSpace zs" for zs
  proof (rule dropWhile_append2)
    fix x assume "x \<in> set (rev ys)"
    with ys show "isSpace x" by simp
  qed
  ultimately show ?thesis by (simp add: trim_def)
qed

lemma trim_idem: "trim (trim xs) = trim xs"
proof -
  define t where "t = dropWhile isSpace xs"
  define u where "u = rev (dropWhile isSpace (rev t))"
  have tu: "t = u @ rev (takeWhile isSpace (rev t))"
    unfolding u_def by (metis rev_append rev_rev_ident takeWhile_dropWhile_id)
  have "dropWhile isSpace u = u"
  proof (cases u)
    case Nil
    then show ?thesis by simp
  next
    case (Cons a as)
    with tu obtain r where "t = a # r" by (cases t) auto
    then have "t \<noteq> []" "hd t = a" by simp_all
    then have "\<not> isSpace a" unfolding t_def by (metis hd_dropWhile)
    with Cons show ?thesis by simp
  qed
  then show ?thesis by (simp add: trim_def t_def u_def)
qed

lemma concat_lines_join:
  "concat (map (\<lambda>l. l @ [NL]) ls) = (if ls = [] then [] else join [NL] ls @ [NL])"
  by (induction ls rule: join.induct[where ?a0.0 = "[NL]"]) auto

lemma trim_lines: "trim (concat (map (\<lambda>l. l @ [NL]) ls)) = trim (join [NL] ls)"
  by (simp add: concat_lines_join trim_append_space isSpace_def)


section \<open>The buffers of the second pass\<close>

text \<open>
  In every state that the second pass reaches, a buffer is empty unless its construct is
  open; and the second pass throws no exception, since \<^verbatim>\<open>insertHeading\<close> is only called on
  lines that start with \<^verbatim>\<open>#\<close>.
\<close>

lemma buffersEmpty_processLine: "buffersEmpty s \<Longrightarrow> buffersEmpty (processLine g line s)"
  by (auto simp: buffersEmpty_def processLine_def Let_def split: option.splits prod.splits)

lemma buffersEmpty_secondPass: "buffersEmpty s \<Longrightarrow> buffersEmpty (secondPass g ls s)"
proof (induction ls arbitrary: s)
  case Nil
  then show ?case by (simp add: secondPass_def)
next
  case (Cons l ls)
  from Cons.prems have "buffersEmpty (processLine g l s)" by (rule buffersEmpty_processLine)
  from Cons.IH[OF this] show ?case by (simp add: secondPass_def)
qed

lemma buffersEmpty_initialState: "buffersEmpty (initialState cur text)"
  by (simp add: buffersEmpty_def initialState_def)

lemma plain_upTo [simp]: "plain r \<Longrightarrow> plain (upTo n r)"
  by (induction n) simp_all

lemma isHeading_insertHeading:
  assumes "isHeading line"
  shows "insertHeading line \<noteq> None"
proof -
  have "plain rxHeading" by (simp add: rxHeading_def)
  with assms obtain w t where w: "w \<in> lang rxHeading" and l: "line = w @ t"
    unfolding isHeading_def using testStart_iff by blast
  from w obtain v where "w = ''#'' @ v" by (auto simp: rxHeading_def)
  with l have "line = ''#'' @ (v @ t)" by simp
  moreover have "''#'' \<in> lang rxHashes" by (auto simp: rxHashes_def intro: star_empty)
  moreover have "plain rxHashes" by (simp add: rxHashes_def)
  ultimately have "testStart rxHashes line" using testStart_iff by blast
  then show ?thesis
    by (auto simp: insertHeading_def testStart_def split: option.splits)
qed

lemma processLine_thrown: "\<not> thrown s \<Longrightarrow> \<not> thrown (processLine g line s)"
  using isHeading_insertHeading[of line]
  by (auto simp: processLine_def Let_def split: option.splits prod.splits)

lemma secondPass_thrown: "\<not> thrown s \<Longrightarrow> \<not> thrown (secondPass g ls s)"
proof (induction ls arbitrary: s)
  case Nil
  then show ?case by (simp add: secondPass_def)
next
  case (Cons l ls)
  from Cons.prems have "\<not> thrown (processLine g l s)" by (rule processLine_thrown)
  from Cons.IH[OF this] show ?case by (simp add: secondPass_def)
qed

lemma secondPass_append: "secondPass g (xs @ ys) s = secondPass g ys (secondPass g xs s)"
  by (simp add: secondPass_def)

lemma reached_not_thrown: "\<not> thrown (secondPass g ls (initialState cur text))"
  by (rule secondPass_thrown) (simp add: initialState_def)

lemma reached_buffersEmpty: "buffersEmpty (secondPass g ls (initialState cur text))"
  by (rule buffersEmpty_secondPass) (rule buffersEmpty_initialState)

section \<open>Fenced code blocks\<close>

lemma interior_lines:
  "\<not> thrown s \<Longrightarrow> inCodeBlock s \<Longrightarrow> \<forall>l \<in> set ls. \<not> startsWith l ''```'' \<Longrightarrow>
   secondPass g ls s = s\<lparr>codeBlockText := codeBlockText s @ concat (map (\<lambda>l. l @ [NL]) ls)\<rparr>"
proof (induction ls arbitrary: s)
  case Nil
  then show ?case by (simp add: secondPass_def)
next
  case (Cons l ls)
  have step: "processLine g l s = s\<lparr>codeBlockText := codeBlockText s @ l @ [NL]\<rparr>"
    using Cons.prems by (simp add: processLine_def)
  have "secondPass g (l # ls) s = secondPass g ls (processLine g l s)"
    by (simp add: secondPass_def)
  also have "\<dots> = (processLine g l s)\<lparr>codeBlockText :=
      codeBlockText (processLine g l s) @ concat (map (\<lambda>l. l @ [NL]) ls)\<rparr>"
    using Cons.prems by (intro Cons.IH) (simp_all add: step)
  finally show ?case by (simp add: step)
qed

lemma code_block_step:
  assumes "\<not> thrown s" and "\<not> inCodeBlock s" and "codeBlockText s = []"
    and "startsWith opening ''```''" and "startsWith closing ''```''"
    and "\<forall>l \<in> set interior. \<not> startsWith l ''```''"
  shows "secondPass g (opening # interior @ [closing]) s
         = s\<lparr>body := body s @ [CodeBlock (trim (join [NL] interior))]\<rparr>"
proof -
  let ?s1 = "s\<lparr>inCodeBlock := True\<rparr>"
  have 1: "processLine g opening s = ?s1"
    using assms by (simp add: processLine_def)
  have 2: "secondPass g interior ?s1 = ?s1\<lparr>codeBlockText := concat (map (\<lambda>l. l @ [NL]) interior)\<rparr>"
    using interior_lines[of ?s1 interior g] assms by simp
  let ?s2 = "?s1\<lparr>codeBlockText := concat (map (\<lambda>l. l @ [NL]) interior)\<rparr>"
  have 3: "processLine g closing ?s2 = s\<lparr>body := body s @ [CodeBlock (trim (join [NL] interior))]\<rparr>"
    using assms by (cases s) (simp add: processLine_def insertCodeBlock_def trim_idem trim_lines)
  have "secondPass g (opening # interior @ [closing]) s
        = processLine g closing (secondPass g interior (processLine g opening s))"
    by (simp add: secondPass_def)
  with 1 2 3 show ?thesis by simp
qed

text \<open>
  C2 (as amended). Wherever in the input, outside a code block, a fence line is followed
  by interior lines of which none starts with three backticks and by a closing fence line,
  the second pass appends exactly one code block for these lines and changes nothing else
  of its state. The text of the code block is the interior lines joined by newlines, with
  the white space at both ends trimmed off; no interior line is looked at for anything but
  the closing fence.
\<close>

theorem C2_code_block_text:
  assumes "\<not> inCodeBlock (secondPass g before (initialState cur markdownText))"
    and "startsWith opening ''```''" and "startsWith closing ''```''"
    and "\<forall>l \<in> set interior. \<not> startsWith l ''```''"
  shows "secondPass g (before @ opening # interior @ [closing]) (initialState cur markdownText)
         = (secondPass g before (initialState cur markdownText))
             \<lparr>body := body (secondPass g before (initialState cur markdownText))
                @ [CodeBlock (trim (join [NL] interior))]\<rparr>"
proof -
  let ?s = "secondPass g before (initialState cur markdownText)"
  have "\<not> thrown ?s" by (rule reached_not_thrown)
  moreover have "codeBlockText ?s = []"
    using reached_buffersEmpty[of g before cur markdownText] assms(1) by (simp add: buffersEmpty_def)
  ultimately have "secondPass g (opening # interior @ [closing]) ?s
      = ?s\<lparr>body := body ?s @ [CodeBlock (trim (join [NL] interior))]\<rparr>"
    using assms by (intro code_block_step) simp_all
  then show ?thesis by (simp add: secondPass_append)
qed

theorem C2_code_block_text_witness:
  "secondPass emptyGlobals ([''# t''] @ ''```js'' # [''  **a**'', ''# b | c''] @ [''```''])
     (initialState NoCursor [])
   = (secondPass emptyGlobals [''# t''] (initialState NoCursor []))
       \<lparr>body := body (secondPass emptyGlobals [''# t''] (initialState NoCursor []))
          @ [CodeBlock (trim (join [NL] [''  **a**'', ''# b | c'']))]\<rparr>
   \<and> trim (join [NL] [''  **a**'', ''# b | c'']) = ''**a**'' @ [NL] @ ''# b | c''
   \<and> body (secondPass emptyGlobals [''# t''] (initialState NoCursor []))
     = [AppendParagraph [], Heading ''t'' 1]"
proof -
  have 1: "\<not> inCodeBlock (secondPass emptyGlobals [''# t''] (initialState NoCursor []))"
    by code_simp
  have 4: "startsWith ''```js'' ''```''" and 5: "startsWith ''```'' ''```''"
    by (simp_all add: startsWith_def)
  have 6: "\<forall>l \<in> set [''  **a**'', ''# b | c'']. \<not> startsWith l ''```''"
    by (simp add: startsWith_def)
  have 7: "trim (join [NL] [''  **a**'', ''# b | c'']) = ''**a**'' @ [NL] @ ''# b | c''"
    by code_simp
  have 8: "body (secondPass emptyGlobals [''# t''] (initialState NoCursor []))
     = [AppendParagraph [], Heading ''t'' 1]"
    by code_simp
  from C2_code_block_text[OF 1 4 5 6] 7 8 show ?thesis by blast
qed

text \<open>
  The text is trimmed: an interior line that is indented loses its indentation when it is
  the first one, so the text is not the exact concatenation of the interior lines.
\<close>

theorem C2_counterexample:
  "converted (''```'' @ [NL] @ ''  x'' @ [NL] @ ''```'') \<noteq> [CodeBlock (join [NL] [''  x''])]"
  by code_simp

section \<open>Tables\<close>

lemma lang_rxCenter:
  "lang rxCenter = {'':'' @ replicate (Suc n) CHR ''-'' @ '':'' | n. True}"
  by (auto simp: rxCenter_def star_one_char)

lemma lang_rxRight:
  "lang rxRight = {replicate (Suc n) CHR ''-'' @ '':'' | n. True}"
  by (auto simp: rxRight_def star_one_char)

lemma test_rxCenter:
  "test rxCenter c \<longleftrightarrow>
     (\<exists>pre n post. c = pre @ '':'' @ replicate (Suc n) CHR ''-'' @ '':'' @ post)"
proof -
  have "test rxCenter c \<longleftrightarrow> (\<exists>pre w post. w \<in> lang rxCenter \<and> c = pre @ w @ post)"
    by (rule test_iff) (simp add: rxCenter_def)
  also have "\<dots> \<longleftrightarrow>
     (\<exists>pre n post. c = pre @ '':'' @ replicate (Suc n) CHR ''-'' @ '':'' @ post)"
    unfolding lang_rxCenter by fastforce
  finally show ?thesis .
qed

lemma test_rxRight:
  "test rxRight c \<longleftrightarrow> (\<exists>pre n post. c = pre @ replicate (Suc n) CHR ''-'' @ '':'' @ post)"
proof -
  have "test rxRight c \<longleftrightarrow> (\<exists>pre w post. w \<in> lang rxRight \<and> c = pre @ w @ post)"
    by (rule test_iff) (simp add: rxRight_def)
  also have "\<dots> \<longleftrightarrow> (\<exists>pre n post. c = pre @ replicate (Suc n) CHR ''-'' @ '':'' @ post)"
    unfolding lang_rxRight by fastforce
  finally show ?thesis .
qed

lemma tableRow_length: "length (tableRow h al cells) = length cells"
  by (simp add: tableRow_def)

lemma tableRow_nth:
  "i < length cells \<Longrightarrow>
   tableRow h al cells ! i = Cell (trim (cells ! i)) h (if i < length al then al ! i else LEFT)"
  by (simp add: tableRow_def nth_enumerate_eq alignmentAt_def)

text \<open>
  A cell of the second line maps to \<^verbatim>\<open>CENTER\<close> when \<^verbatim>\<open>:-+:\<close> occurs in it, else to \<^verbatim>\<open>RIGHT\<close>
  when \<^verbatim>\<open>-+:\<close> occurs in it, else to \<^verbatim>\<open>LEFT\<close>.
\<close>

lemma alignment_cascade:
  "alignment c =
     (if \<exists>pre n post. c = pre @ '':'' @ replicate (Suc n) CHR ''-'' @ '':'' @ post
      then CENTER
      else if \<exists>pre n post. c = pre @ replicate (Suc n) CHR ''-'' @ '':'' @ post
      then RIGHT else LEFT)"
  unfolding alignment_def test_rxCenter test_rxRight by simp

text \<open>
  When the filter of line 291 keeps as many cells of the first line as the filter of line
  292 keeps of the second, the header row that is appended pairs them off: every header
  cell carries the alignment of the separator cell of its own position.
\<close>

lemma insertTable_header:
  assumes "3 \<le> length ls"
    and "length (headerCells (ls ! 1)) = length (headerCells (ls ! 0))"
  shows "\<exists>rows. insertTable ls
     = [AppendTable (map2 (\<lambda>c a. Cell (trim c) True (alignment a))
                       (headerCells (ls ! 0)) (headerCells (ls ! 1)) # rows)]"
proof -
  let ?header = "tableRow True (tableAlignments ls) (headerCells (ls ! 0))"
  have 1: "insertTable ls = [AppendTable (?header
      # map (\<lambda>l. tableRow False (tableAlignments ls) (bodyCells l)) (drop 2 ls))]"
    using assms(1) by (simp add: insertTable_def Let_def)
  have 2: "?header = map2 (\<lambda>c a. Cell (trim c) True (alignment a))
      (headerCells (ls ! 0)) (headerCells (ls ! 1))"
    using assms(2)
    by (intro nth_equalityI) (simp_all add: tableRow_length tableRow_nth tableAlignments_def)
  from 1 2 show ?thesis by simp
qed

text \<open>
  C5. The header line is split with the filter \<^verbatim>\<open>cell => cell.trim()\<close> (line 291), which
  drops a blank cell, while the body lines are split with the filter \<^verbatim>\<open>cell => cell\<close>
  (line 316), which keeps it. For the three lines \<^verbatim>\<open>| a | | b |\<close>, \<^verbatim>\<open>|:---:|---|---:|\<close> and
  \<^verbatim>\<open>| 1 | 2 | 3 |\<close>, a table of three columns whose separator cells map to \<^verbatim>\<open>CENTER\<close>, \<^verbatim>\<open>LEFT\<close>
  and \<^verbatim>\<open>RIGHT\<close>, the table that is appended therefore has a header row of two cells over a
  body row of three cells with three alignments, and the header cell \<^verbatim>\<open>b\<close>, which stands
  over the separator cell \<^verbatim>\<open>---:\<close>, is appended with \<^verbatim>\<open>LEFT\<close>, the alignment of the blank
  column, and not with \<^verbatim>\<open>RIGHT\<close>.
\<close>

theorem C5_blank_header_cell:
  "converted (''| a | | b |'' @ [NL] @ ''|:---:|---|---:|'' @ [NL] @ ''| 1 | 2 | 3 |'')
     = [AppendTable [[Cell ''a'' True CENTER, Cell ''b'' True LEFT],
                     [Cell ''1'' False CENTER, Cell ''2'' False LEFT, Cell ''3'' False RIGHT]]]
   \<and> headerCells ''| a | | b |'' = ['' a '', '' b '']
   \<and> bodyCells ''| a | | b |'' = ['' a '', '' '', '' b '']
   \<and> map alignment (headerCells ''|:---:|---|---:|'') = [CENTER, LEFT, RIGHT]
   \<and> isTable ''|:---:|---|---:|''"
  by code_simp

section \<open>Finalisation\<close>

lemma finalize_body:
  assumes "\<not> thrown s"
  shows "body (finalize s) = body s
     @ (if inTable s then insertTable (tableLines s) else [])
     @ (if inBlockquote s then [Blockquote (join [NL] (blockquoteLines s))] else [])
     @ (if inCodeBlock s then [CodeBlock (trim (codeBlockText s))] else [])"
  using assms
  by (simp add: finalize_def Let_def insertBlockquote_def processBlockquote_def
      insertCodeBlock_def trim_idem)

lemma insertTable_length:
  "length (insertTable ls) = (if 3 \<le> length ls then 1 else 0)"
  by (simp add: insertTable_def Let_def)

text \<open>
  C3 (as amended). For every input, what the conversion appends after the last line is,
  in this order: the table built from the buffered lines when a table is still open and
  holds at least three lines; one blockquote of the buffered lines when a blockquote is
  still open; one code block of the trimmed buffer when a code block is still open. A table
  that is still open with fewer than three lines appends nothing. In particular a fence
  line followed by the line \<^verbatim>\<open>code\<close> and no closing fence gives one code block \<^verbatim>\<open>code\<close>.
\<close>

theorem C3_open_constructs_are_flushed:
  "(let lines = js_split NL markdownText;
        s = secondPass (firstPass g lines) lines (initialState cur markdownText)
    in body (snd (parseAndInsertMarkdown cur g markdownText))
       = body s
         @ (if inTable s \<and> 3 \<le> length (tableLines s) then insertTable (tableLines s) else [])
         @ (if inBlockquote s then [Blockquote (join [NL] (blockquoteLines s))] else [])
         @ (if inCodeBlock s then [CodeBlock (trim (codeBlockText s))] else [])
       \<and> length (insertTable (tableLines s)) = (if 3 \<le> length (tableLines s) then 1 else 0))
   \<and> converted (''```'' @ [NL] @ ''code'' @ [NL]) = [CodeBlock ''code'']"
proof -
  let ?lines = "js_split NL markdownText"
  let ?s = "secondPass (firstPass g ?lines) ?lines (initialState cur markdownText)"
  have "\<not> thrown (initialState cur markdownText)" by (simp add: initialState_def)
  then have nt: "\<not> thrown ?s" by (rule secondPass_thrown)
  have small: "insertTable (tableLines ?s) = []" if "\<not> 3 \<le> length (tableLines ?s)"
    using that by (simp add: insertTable_def)
  have "body (snd (parseAndInsertMarkdown cur g markdownText)) = body (finalize ?s)"
    by (simp add: parseAndInsertMarkdown_def Let_def)
  also have "\<dots> = body ?s
         @ (if inTable ?s \<and> 3 \<le> length (tableLines ?s) then insertTable (tableLines ?s) else [])
         @ (if inBlockquote ?s then [Blockquote (join [NL] (blockquoteLines ?s))] else [])
         @ (if inCodeBlock ?s then [CodeBlock (trim (codeBlockText ?s))] else [])"
    using small by (simp add: finalize_body[OF nt])
  finally have 1: "body (snd (parseAndInsertMarkdown cur g markdownText)) = body ?s
         @ (if inTable ?s \<and> 3 \<le> length (tableLines ?s) then insertTable (tableLines ?s) else [])
         @ (if inBlockquote ?s then [Blockquote (join [NL] (blockquoteLines ?s))] else [])
         @ (if inCodeBlock ?s then [CodeBlock (trim (codeBlockText ?s))] else [])" .
  have 2: "converted (''```'' @ [NL] @ ''code'' @ [NL]) = [CodeBlock ''code'']"
    by code_simp
  from 1 2 insertTable_length[of "tableLines ?s"] show ?thesis
    unfolding Let_def by blast
qed

text \<open>
  A table of two lines that the input leaves open is dropped by the finalisation.
\<close>

theorem C3_counterexample:
  "(let s = secondPass emptyGlobals [''| a |'', ''| b |''] (initialState NoCursor [])
    in inTable s \<and> tableLines s = [''| a |'', ''| b |''] \<and> body (finalize s) = body s)
   \<and> converted (''| a |'' @ [NL] @ ''| b |'') = []"
  by code_simp

text \<open>
  \<^verbatim>\<open>MarkdownUtils.finalizeOpenElements\<close> appends a paragraph for an open code block with a
  non-empty text only; for a blockquote or a table it resets the flag. While
  \<^verbatim>\<open>context.codeBlockText\<close> is undefined it fails on an open code block.
\<close>

lemma finalizeOpenElements_code_only:
  "finalizeOpenElements ctx = Inr (ops, ctx') \<Longrightarrow>
   ops = (if ctxInCodeBlock ctx \<and> ctxCodeBlockText ctx \<noteq> Some []
          then [CodeBlock (trim (the (ctxCodeBlockText ctx)))] else [])"
  by (auto simp: finalizeOpenElements_def Let_def split: option.splits if_splits)

lemma finalizeOpenElements_undefined_text:
  "ctxInCodeBlock ctx \<Longrightarrow> ctxCodeBlockText ctx = None \<Longrightarrow>
   finalizeOpenElements ctx = Inl TypeError"
  by (simp add: finalizeOpenElements_def Let_def)

section \<open>Blockquotes\<close>














section \<open>Inline formatting\<close>

text \<open>
  C7. Neither formatter resolves the bold-italic markers of \<^verbatim>\<open>***bold-italic***\<close> before the
  bold and italic ones. \<^verbatim>\<open>applyBasicFormatting\<close> applies \<^verbatim>\<open>regex.boldItalic\<close> first and sets
  bold and italic on the range 3 to 13, but it applies the other patterns to the same text:
  \<^verbatim>\<open>regex.bold\<close> takes \<^verbatim>\<open>***bold-italic**\<close> and sets bold on the range 2 to 13, which starts at
  an asterisk, \<^verbatim>\<open>regex.italic\<close> takes \<^verbatim>\<open>**\<close> twice and sets italic on the range 0 to -1, and
  the asterisks stay in the text of the element; for \<^verbatim>\<open>**bold** and *italic*\<close> too it sets
  italic on the range 0 to -1 twice and leaves the asterisks. \<^verbatim>\<open>processAdvancedFormatting\<close>,
  which the conversion uses, has no bold-italic step: its first replacement, the one for
  bold, takes \<^verbatim>\<open>***bold-italic**\<close>, and the result holds the crossed tags
  \<^verbatim>\<open><b><i>bold-italic</b></i>\<close>.
\<close>

theorem C7_bold_italic_markers:
  "insertParagraph ''***bold-italic***''
     = \<lparr>elText = ''***bold-italic***'',
        elCalls = [SetBold 3 13, SetItalic 3 13, SetBold 2 13, SetItalic 0 (- 1),
                   SetItalic 3 13, SetItalic 0 (- 1)]\<rparr>
   \<and> insertParagraph ''**bold** and *italic*''
     = \<lparr>elText = ''**bold** and *italic*'',
        elCalls = [SetBold 2 5, SetItalic 0 (- 1), SetItalic 0 (- 1), SetItalic 14 19]\<rparr>
   \<and> wrapTag ''**'' ''b'' ''***bold-italic***'' = ''<b>*bold-italic</b>*''
   \<and> processAdvancedFormatting ''***bold-italic***'' = ''<b><i>bold-italic</b></i>''
   \<and> converted ''***bold-italic***''
     = [IndentedParagraph ''<b><i>bold-italic</b></i>'' 0,
        AppendParagraph ''<b><i>bold-italic</b></i>'']"
  by code_simp

section \<open>Nesting of list items\<close>

text \<open>
  A call of \<^verbatim>\<open>insertList\<close> on one list line, as the conversion makes it, sets nesting
  level 0 whatever the indentation of the line.
\<close>

lemma js_split_no_sep: "sep \<notin> set s \<Longrightarrow> js_split sep s = [s]"
  by (induction s) auto

lemma popDeeper_empty: "popDeeper [] n i = ([], n)"
  by simp

lemma insertList_one_line:
  assumes "isList line" and "NL \<notin> set line"
  shows "insertList line
         = [ListItem (replaceStart rxListMarker [] (trim line))
              (if snd (getListDetails line) then NUMBER else BULLET) 0]"
  using assms
  by (simp add: insertList_def js_split_no_sep insertListLine_def split: prod.splits)

text \<open>
  Handed a whole block of list lines in one string, \<^verbatim>\<open>insertList\<close> compares each item's
  indentation with its stack and gives the items of indentation 0, 2, 4, 2, 0 the
  nesting levels 0, 1, 2, 1, 0.
\<close>

lemma insertList_block_levels:
  "insertList (''- a'' @ [NL] @ ''  - b'' @ [NL] @ ''    - c'' @ [NL] @ ''  - d'' @ [NL] @ ''- e'')
   = [ListItem ''a'' BULLET 0, ListItem ''b'' BULLET 1, ListItem ''c'' BULLET 2,
      ListItem ''d'' BULLET 1, ListItem ''e'' BULLET 0]"
  by code_simp

text \<open>
  C1. The conversion splits its input at the line breaks and calls \<^verbatim>\<open>insertList\<close> once for
  every list line, and each call starts from an empty stack. For the five list lines of
  indentation 0, 2, 4, 2 and 0 the nesting levels set are therefore 0, 0, 0, 0, 0 and
  not 0, 1, 2, 1, 0.
\<close>

theorem C1_nesting_levels_of_conversion:
  "converted (''- a'' @ [NL] @ ''  - b'' @ [NL] @ ''    - c'' @ [NL] @ ''  - d'' @ [NL] @ ''- e'')
   = [ListItem ''a'' BULLET 0, ListItem ''b'' BULLET 0, ListItem ''c'' BULLET 0,
      ListItem ''d'' BULLET 0, ListItem ''e'' BULLET 0]"
  by code_simp

section \<open>Footnotes\<close>

text \<open>
  C4. For the definition line \<^verbatim>\<open>[^a]: note\<close> followed by the line \<^verbatim>\<open>text[^a]\<close> the
  conversion appends the footnote twice: the second pass treats the definition line as
  ordinary text, finds the reference pattern \<^verbatim>\<open>[^a]\<close> at its start, appends the footnote
  and then the rest of the line, \<^verbatim>\<open>: note\<close>, as two paragraphs.
\<close>

theorem C4_definition_line_is_converted:
  "converted (''[^a]: note'' @ [NL] @ ''text[^a]'') =
     [AppendFootnote (JStr ''note''), IndentedParagraph '': note'' 0, AppendParagraph '': note'',
      AppendFootnote (JStr ''note''), IndentedParagraph ''text'' 0, AppendParagraph ''text'']"
  by code_simp

section \<open>Horizontal rules\<close>

lemma lang_atLeast_chr: "lang (atLeast k (chr ch)) = {replicate n ch | n. k \<le> n}"
proof (induction k)
  case 0
  show ?case by (simp add: star_one_char)
next
  case (Suc k)
  show ?case
  proof (rule set_eqI, rule iffI)
    fix w assume "w \<in> lang (atLeast (Suc k) (chr ch))"
    with Suc obtain n where "k \<le> n" "w = ch # replicate n ch" by auto
    then have "Suc k \<le> Suc n" "w = replicate (Suc n) ch" by simp_all
    then show "w \<in> {replicate n ch | n. Suc k \<le> n}" by blast
  next
    fix w assume "w \<in> {replicate n ch | n. Suc k \<le> n}"
    then obtain n where n: "Suc k \<le> n" "w = replicate n ch" by blast
    then obtain m where "n = Suc m" by (cases n) auto
    with n Suc show "w \<in> lang (atLeast (Suc k) (chr ch))" by auto
  qed
qed

lemma plain_atLeast [simp]: "plain (atLeast k r) = plain r"
  by (induction k) simp_all

lemma horizontalRule_iff:
  "testStart rxHorizontalRule line \<longleftrightarrow> (\<exists>n. 3 \<le> n \<and> line = replicate n CHR ''-'')"
  unfolding rxHorizontalRule_def by (subst testStart_Eol) (auto simp: lang_atLeast_chr)

lemma dashes_not_codeBlock: "\<not> testStart rxCodeBlock (replicate n CHR ''-'')"
  by (cases n) (auto simp: testStart_iff rxCodeBlock_def)

lemma dashes_not_heading: "\<not> testStart rxUHeading (replicate n CHR ''-'')"
  by (cases n) (auto simp: testStart_iff rxUHeading_def)

lemma dashes_not_blockquote: "\<not> testStart rxUBlockquote (replicate n CHR ''-'')"
  by (cases n) (auto simp: testStart_iff rxUBlockquote_def)

lemma listItem_has_space:
  assumes "w \<in> lang rxListItem"
  shows "\<exists>x \<in> set w. isSpace x"
  using assms unfolding rxListItem_def by auto

lemma dashes_not_listItem: "\<not> testStart rxListItem (replicate n CHR ''-'')"
proof
  assume "testStart rxListItem (replicate n CHR ''-'')"
  moreover have "plain rxListItem" by (simp add: rxListItem_def)
  ultimately obtain w t where w: "w \<in> lang rxListItem" "replicate n CHR ''-'' = w @ t"
    using testStart_iff by blast
  from listItem_has_space[OF w(1)] obtain x where "x \<in> set w" "isSpace x" by blast
  moreover from w(2) have "set w \<subseteq> {CHR ''-''}"
    by (metis set_append set_replicate_conv_if Un_upper1 empty_subsetI subset_trans order_refl)
  ultimately show False by (auto simp: isSpace_def)
qed

text \<open>
  Outside a code block, the line classifier of MarkdownUtils.js takes a line for a
  horizontal rule exactly when the whole line is three or more dashes.
\<close>

lemma determineLineType_horizontalRule:
  "fst (determineLineType line inCode lastIndex) = T_horizontalRule
   \<longleftrightarrow> \<not> inCode \<and> (\<exists>n. 3 \<le> n \<and> line = replicate n CHR ''-'')"
proof
  assume "fst (determineLineType line inCode lastIndex) = T_horizontalRule"
  then have "\<not> inCode \<and> testStart rxHorizontalRule line"
    by (auto simp: determineLineType_def split: if_splits prod.splits)
  then show "\<not> inCode \<and> (\<exists>n. 3 \<le> n \<and> line = replicate n CHR ''-'')"
    by (simp add: horizontalRule_iff)
next
  assume a: "\<not> inCode \<and> (\<exists>n. 3 \<le> n \<and> line = replicate n CHR ''-'')"
  then obtain n where n: "3 \<le> n" "line = replicate n CHR ''-''" by blast
  then have "testStart rxHorizontalRule line" by (auto simp: horizontalRule_iff)
  with a n show "fst (determineLineType line inCode lastIndex) = T_horizontalRule"
    by (simp add: determineLineType_def dashes_not_codeBlock dashes_not_heading
        dashes_not_blockquote dashes_not_listItem)
qed

text \<open>
  C8. The conversion takes every line that starts with three dashes for a horizontal
  rule: the line \<^verbatim>\<open>--- x\<close> appends one, while the line classifier of MarkdownUtils.js,
  whose pattern is \<^verbatim>\<open>/^-{3,}$/\<close>, takes the same line for a paragraph.
\<close>

theorem C8_rule_from_a_line_with_text:
  "converted ''--- x'' = [HorizontalRule] \<and>
   fst (determineLineType ''--- x'' False 0) = T_paragraph"
  by code_simp

section \<open>The lookup tables across calls\<close>

text \<open>
  The first pass writes the definitions of its lines over the tables that it finds. The
  second pass only reads the tables. A second call on the same text therefore finds the
  tables that the first call used, and appends the same elements.
\<close>

lemma overrideTables_assoc:
  "overrideTables (overrideTables a b) c = overrideTables a (overrideTables b c)"
  by (simp add: overrideTables_def split: option.splits)

lemma map_add_self: "m ++ m = (m :: 'a \<rightharpoonup> 'b)"
  by (rule ext) (simp add: map_add_def split: option.splits)

lemma overrideTables_idem: "overrideTables d d = d"
  by (intro globals.equality refTable.equality)
     (simp_all add: overrideTables_def map_add_self split: option.splits)

lemma overrideTables_empty: "overrideTables g emptyGlobals = g"
  by (intro globals.equality refTable.equality) (simp_all add: overrideTables_def emptyGlobals_def)

lemma collectLine_override: "collectLine line g = overrideTables g (collectLine line emptyGlobals)"
  by (intro globals.equality refTable.equality)
     (auto simp: collectLine_def extractFootnoteDefinition_def extractLinkDefinition_def
        overrideTables_def emptyGlobals_def footnotesSet_def refSet_def map_add_def
        split: option.splits prod.splits)

lemma firstPass_Cons: "firstPass g (l # ls) = firstPass (collectLine l g) ls"
  by (simp add: firstPass_def)

lemma firstPass_override: "firstPass g ls = overrideTables g (firstPass emptyGlobals ls)"
proof (induction ls arbitrary: g)
  case Nil
  show ?case by (simp add: firstPass_def overrideTables_empty)
next
  case (Cons l ls)
  have "firstPass g (l # ls) = overrideTables (collectLine l g) (firstPass emptyGlobals ls)"
    unfolding firstPass_Cons by (rule Cons.IH)
  also have "\<dots> = overrideTables (overrideTables g (collectLine l emptyGlobals))
      (firstPass emptyGlobals ls)"
    by (subst collectLine_override) simp
  also have "\<dots> = overrideTables g (overrideTables (collectLine l emptyGlobals)
      (firstPass emptyGlobals ls))"
    by (rule overrideTables_assoc)
  also have "overrideTables (collectLine l emptyGlobals) (firstPass emptyGlobals ls)
      = firstPass emptyGlobals (l # ls)"
    unfolding firstPass_Cons by (rule Cons.IH[symmetric])
  finally show ?case .
qed

lemma firstPass_idem: "firstPass (firstPass g ls) ls = firstPass g ls"
proof -
  have "firstPass (firstPass g ls) ls
        = overrideTables (overrideTables g (firstPass emptyGlobals ls)) (firstPass emptyGlobals ls)"
    by (metis firstPass_override)
  also have "\<dots> = overrideTables g (firstPass emptyGlobals ls)"
    by (simp add: overrideTables_assoc overrideTables_idem)
  also have "\<dots> = firstPass g ls" by (rule firstPass_override[symmetric])
  finally show ?thesis .
qed

lemma tables_after_call:
  "fst (parseAndInsertMarkdown cur g text)
   = overrideTables g (firstPass emptyGlobals (js_split NL text))"
  by (simp add: parseAndInsertMarkdown_def Let_def firstPass_override[symmetric])

lemma same_input_twice:
  "snd (parseAndInsertMarkdown cur (fst (parseAndInsertMarkdown cur g text)) text)
   = snd (parseAndInsertMarkdown cur g text)"
  by (simp add: parseAndInsertMarkdown_def Let_def firstPass_idem)

text \<open>
  C9. The tables are the module-level variables, which a call does not empty: after a
  first call on the text \<^verbatim>\<open>[^a]: note\<close>, a second call on the text \<^verbatim>\<open>see[^a]\<close>, whose own
  first pass collects no definition, appends the footnote \<^verbatim>\<open>note\<close>; in a freshly loaded
  script the same text appends no footnote.
\<close>

theorem C9_definition_carried_over:
  "(case parseAndInsertMarkdown NoCursor emptyGlobals ''[^a]: note'' of
      (g1, s1) \<Rightarrow> body (snd (parseAndInsertMarkdown NoCursor g1 ''see[^a]'')))
     = [AppendParagraph ''see[^a]'', AppendFootnote (JStr ''note''),
        IndentedParagraph ''see'' 0, AppendParagraph ''see''] \<and>
   body (snd (parseAndInsertMarkdown NoCursor emptyGlobals ''see[^a]''))
     = [AppendParagraph ''see[^a]'', IndentedParagraph ''see'' 0, AppendParagraph ''see'']"
  by code_simp

section \<open>Reference-style links\<close>

text \<open>
  What replaces a usage \<^verbatim>\<open>[text][id]\<close>: the text and the URL for an identifier with a
  definition of its own; the bare text for an identifier without one that is not a
  property of \<^verbatim>\<open>Object.prototype\<close>; the text followed by \<^verbatim>\<open>(undefined)\<close> for one that is.
\<close>

lemma referenceLinkText_defined:
  "linkId \<noteq> ''__proto__'' \<Longrightarrow> refOwn (referenceLinks g) linkId = Some d \<Longrightarrow>
   referenceLinkText g linkText linkId = linkText @ '' ('' @ url d @ '')''"
  by (simp add: referenceLinkText_def refGet_def)

lemma referenceLinkText_undefined:
  "linkId \<notin> set objectPrototypeKeys \<Longrightarrow> refOwn (referenceLinks g) linkId = None \<Longrightarrow>
   refProto (referenceLinks g) = None \<Longrightarrow>
   referenceLinkText g linkText linkId = linkText"
  by (auto simp: referenceLinkText_def refGet_def objectPrototypeKeys_def)

lemma referenceLinkText_inherited:
  "linkId \<in> set objectPrototypeKeys \<Longrightarrow> refOwn (referenceLinks g) linkId = None \<Longrightarrow>
   refProto (referenceLinks g) = None \<Longrightarrow>
   referenceLinkText g linkText linkId = linkText @ '' (undefined)''"
  by (auto simp: referenceLinkText_def refGet_def)

text \<open>
  C10. A link identifier that names a property of \<^verbatim>\<open>Object.prototype\<close> is found in the
  table although no definition was collected for it: \<^verbatim>\<open>[x][constructor]\<close> becomes
  \<^verbatim>\<open>x (undefined)\<close> and not the bare link text \<^verbatim>\<open>x\<close>.
\<close>

theorem C10_inherited_identifier:
  "processReferenceLinksInText emptyGlobals ''[x][constructor]'' = ''x (undefined)'' \<and>
   converted ''[x][constructor]''
     = [IndentedParagraph ''x (undefined)'' 0, AppendParagraph ''x (undefined)'']"
  by code_simp

end
